theory Spec2Isabelle
  imports Main "HOL-Library.AList" "HOL-Library.Word" "HOL-Library.Finite_Map"
    "HOL-Library.Char_ord" "HOL-Library.List_Lexorder"
begin

section \<open>Document trees\<close>

text \<open>
  The Go code handles documents as \<^verbatim>\<open>map[string]interface{}\<close> trees. A value of
  \<^verbatim>\<open>interface{}\<close> is modelled by one constructor per dynamic type that the type
  switches of the source distinguish. \<open>JMap\<close> is \<^verbatim>\<open>map[string]interface{}\<close> and
  \<open>JSlice\<close> is \<^verbatim>\<open>[]interface{}\<close>; \<open>JPrimM\<close> and \<open>JPrimA\<close> are the driver's named
  types \<^verbatim>\<open>primitive.M\<close> and \<^verbatim>\<open>primitive.A\<close>, which a type switch does not identify
  with the former two. \<open>JOther\<close> stands for a value of any further Go type, tagged by
  the name of that type. A map is an association list; reading a key is \<open>lookupJ\<close>
  (a missing key reads as \<open>JNil\<close>, as indexing a Go map does) and assigning a key
  is \<open>AList.update\<close>. Go ranges over a map in no fixed order; the model ranges in the
  order of the list. The keys of a Go map are distinct, so each loop of the source over a
  map assigns every key once and its result does not depend on the order. Integers and
  floating-point numbers carry their bits; no function below computes with them.
\<close>

type_synonym objectID = "8 word list"

datatype jvalue =
    JNil
  | JString string
  | JBool bool
  | JInt "64 word"
  | JInt32 "32 word"
  | JInt64 "64 word"
  | JFloat32 "32 word"
  | JFloat64 "64 word"
  | JObjectID objectID
  | JOther string
  | JMap "(string \<times> jvalue) list"
  | JSlice "jvalue list"
  | JPrimM "(string \<times> jvalue) list"
  | JPrimA "jvalue list"

type_synonym document = "(string \<times> jvalue) list"

definition lookupJ :: "document \<Rightarrow> string \<Rightarrow> jvalue" where
  "lookupJ m k = (case map_of m k of None \<Rightarrow> JNil | Some v \<Rightarrow> v)"

definition keysJ :: "document \<Rightarrow> string set" where
  "keysJ m = fst ` set m"

section \<open>The template sanitizer\<close>

fun copyTemplateValue :: "jvalue \<Rightarrow> jvalue" where
  "copyTemplateValue (JMap v) =
     JMap (fold (\<lambda>(key, val) cloned. AList.update key (copyTemplateValue val) cloned) v [])"
| "copyTemplateValue (JSlice v) = JSlice (map copyTemplateValue v)"
| "copyTemplateValue v = v"

fun toTemplateMap :: "jvalue \<Rightarrow> document" where
  "toTemplateMap (JMap v) = v"
| "toTemplateMap (JSlice v) =
     (case v of [] \<Rightarrow> [] | JMap first # _ \<Rightarrow> first | _ \<Rightarrow> [])"
| "toTemplateMap _ = []"

fun toTemplateSlice :: "jvalue \<Rightarrow> jvalue list" where
  "toTemplateSlice (JSlice v) = v"
| "toTemplateSlice (JMap v) = [JMap v]"
| "toTemplateSlice JNil = []"
| "toTemplateSlice v = [copyTemplateValue v]"

definition firstOrNil :: "jvalue list \<Rightarrow> jvalue" where
  "firstOrNil xs = (case xs of [] \<Rightarrow> JNil | x # _ \<Rightarrow> x)"

lemma size_in_document: "(k, v) \<in> set m \<Longrightarrow> size v < Suc (size_list (size_prod (\<lambda>_. 0) size) m)"
  by (induction m) auto

lemma size_toTemplateMap: "(k, v) \<in> set (toTemplateMap x) \<Longrightarrow> size v < size x"
proof (cases x)
  case (JMap m)
  assume "(k, v) \<in> set (toTemplateMap x)"
  with JMap show ?thesis using size_in_document [of k v m] by simp
next
  case (JSlice xs)
  assume a: "(k, v) \<in> set (toTemplateMap x)"
  show ?thesis
  proof (cases xs)
    case Nil
    with a JSlice show ?thesis by simp
  next
    case (Cons y ys)
    with a JSlice obtain m where "y = JMap m" "(k, v) \<in> set m"
      by (cases y) auto
    with Cons JSlice show ?thesis using size_in_document [of k v m] by simp
  qed
qed simp_all

lemma size_firstOrNil_toTemplateSlice: "size (firstOrNil (toTemplateSlice x)) \<le> size x"
proof (cases x)
  case (JSlice xs)
  then show ?thesis by (cases xs) (simp_all add: firstOrNil_def)
qed (simp_all add: firstOrNil_def)

lemma size_firstOrNil_lt: "size (firstOrNil b) < size (JSlice b)"
  by (cases b) (simp_all add: firstOrNil_def)

function mergeTemplateValues :: "jvalue \<Rightarrow> jvalue \<Rightarrow> jvalue" where
  "mergeTemplateValues base incoming =
     (if base = JNil then copyTemplateValue incoming
      else if incoming = JNil then base
      else (case base of
          JMap b \<Rightarrow>
            JMap (fold (\<lambda>(key, val) b. AList.update key (mergeTemplateValues (lookupJ b key) val) b)
                    (toTemplateMap incoming) b)
        | JSlice b \<Rightarrow>
            (let incomingSlice = toTemplateSlice incoming in
             if length b = 0 \<and> length incomingSlice = 0 then JSlice []
             else
               (let baseElem = firstOrNil b;
                    incomingElem = firstOrNil incomingSlice;
                    merged = mergeTemplateValues baseElem incomingElem
                in if merged = JNil then JSlice [] else JSlice [merged]))
        | _ \<Rightarrow> base))"
  by pat_completeness auto
termination
proof (relation "measures [\<lambda>(b, i). size i, \<lambda>(b, i). size b]")
  show "wf (measures [\<lambda>(b, i). size i, \<lambda>(b, i). size b])" by simp
next
  fix base incoming :: jvalue and x :: "string \<times> jvalue" and xa y xb
  assume "x \<in> set (toTemplateMap incoming)" "(xa, y) = x"
  then have "size y < size incoming"
    using size_toTemplateMap [of xa y incoming] by simp
  then show "((lookupJ xb xa, y), base, incoming) \<in> measures [\<lambda>(b, i). size i, \<lambda>(b, i). size b]"
    by simp
next
  fix base incoming :: jvalue and x12 x xa xb
  assume "base = JSlice x12" "x = toTemplateSlice incoming" "xa = firstOrNil x12" "xb = firstOrNil x"
  then show "((xa, xb), base, incoming) \<in> measures [\<lambda>(b, i). size i, \<lambda>(b, i). size b]"
    using size_firstOrNil_toTemplateSlice [of incoming] size_firstOrNil_lt [of x12] by auto
qed

definition isPrimitive :: "jvalue \<Rightarrow> bool" where
  "isPrimitive v = (case v of JPrimM _ \<Rightarrow> True | JPrimA _ \<Rightarrow> True | _ \<Rightarrow> False)"

function buildTemplateValue :: "jvalue \<Rightarrow> jvalue" where
  "buildTemplateValue (JMap v) =
     JMap (fold (\<lambda>(key, raw) result.
                   AList.update key (mergeTemplateValues (lookupJ result key) (buildTemplateValue raw)) result)
             v [])"
| "buildTemplateValue (JPrimM v) = buildTemplateValue (JMap v)"
| "buildTemplateValue (JSlice v) =
     (let element = fold (\<lambda>item element. mergeTemplateValues element (buildTemplateValue item)) v JNil
      in if element = JNil then JSlice [] else JSlice [element])"
| "buildTemplateValue (JPrimA v) = buildTemplateValue (JSlice (map (\<lambda>item. item) v))"
| "buildTemplateValue (JString s) = JString []"
| "buildTemplateValue JNil = JString []"
| "buildTemplateValue (JBool b) = JBool False"
| "buildTemplateValue (JInt n) = JInt 0"
| "buildTemplateValue (JInt32 n) = JInt 0"
| "buildTemplateValue (JInt64 n) = JInt 0"
| "buildTemplateValue (JFloat32 x) = JInt 0"
| "buildTemplateValue (JFloat64 x) = JInt 0"
| "buildTemplateValue (JObjectID x) = JString []"
| "buildTemplateValue (JOther t) = JString []"
  by pat_completeness auto
termination
proof (relation "measure (\<lambda>v. 2 * size v + (if isPrimitive v then 1 else 0))")
  show "wf (measure (\<lambda>v. 2 * size v + (if isPrimitive v then 1 else 0)))" by simp
next
  fix v :: document and x :: "string \<times> jvalue" and xa y
  assume "x \<in> set v" "(xa, y) = x"
  then have "size y < size (JMap v)" using size_in_document [of xa y v] by simp
  then show "(y, JMap v) \<in> measure (\<lambda>v. 2 * size v + (if isPrimitive v then 1 else 0))"
    by (simp add: isPrimitive_def)
next
  fix v :: document
  show "(JMap v, JPrimM v) \<in> measure (\<lambda>v. 2 * size v + (if isPrimitive v then 1 else 0))"
    by (simp add: isPrimitive_def)
next
  fix v :: "jvalue list" and x
  assume "x \<in> set v"
  then have "size x < size (JSlice v)" using size_list_estimation' [of x v "size x" size] by simp
  then show "(x, JSlice v) \<in> measure (\<lambda>v. 2 * size v + (if isPrimitive v then 1 else 0))"
    by (simp add: isPrimitive_def)
next
  fix v :: "jvalue list"
  show "(JSlice (map (\<lambda>item. item) v), JPrimA v) \<in> measure (\<lambda>v. 2 * size v + (if isPrimitive v then 1 else 0))"
    by (simp add: isPrimitive_def)
qed

text \<open>
  \<open>sanitizeTemplateDocument\<close> takes a Go map, which may be the nil map (\<open>None\<close>).
\<close>

definition sanitizeTemplateDocument :: "document option \<Rightarrow> document option" where
  "sanitizeTemplateDocument doc =
     (case doc of
        None \<Rightarrow> None
      | Some d \<Rightarrow>
          (case buildTemplateValue (JMap d) of
             JMap mapped \<Rightarrow> Some mapped
           | _ \<Rightarrow> Some []))"

text \<open>
  Auxiliary notions for the proofs: the field loop of \<open>mergeTemplateValues\<close> on its own,
  and the values the sanitizer produces (\<open>isSkeleton\<close>).
\<close>

definition mergeFields :: "document \<Rightarrow> document \<Rightarrow> document" where
  "mergeFields b inc =
     fold (\<lambda>(key, val) b. AList.update key (mergeTemplateValues (lookupJ b key) val) b) inc b"

fun isSkeleton :: "jvalue \<Rightarrow> bool" where
  "isSkeleton (JString s) = (s = [])"
| "isSkeleton (JBool b) = (\<not> b)"
| "isSkeleton (JInt n) = (n = 0)"
| "isSkeleton (JMap m) = (distinct (map fst m) \<and> list_all (\<lambda>(k, v). isSkeleton v) m)"
| "isSkeleton (JSlice []) = True"
| "isSkeleton (JSlice [e]) = isSkeleton e"
| "isSkeleton _ = False"

definition nilOrSkeleton :: "jvalue \<Rightarrow> bool" where
  "nilOrSkeleton v = (v = JNil \<or> isSkeleton v)"


text \<open>
  Nesting levels of a value: a path descends into the field of an object (\<open>Key\<close>) or
  into the elements of an array (\<open>Elem\<close>), and \<open>keysAt v p\<close> is the set of object keys
  found in \<open>v\<close> at the end of the path \<open>p\<close>. \<open>sameShape base incoming\<close> says that wherever
  \<open>incoming\<close> has an object or an array, \<open>base\<close> has a value of the same kind or none;
  \<open>covers r a\<close> says that \<open>r\<close> has the keys of \<open>a\<close> at every nesting level.
\<close>

datatype step = Key string | Elem

fun keysAt :: "jvalue \<Rightarrow> step list \<Rightarrow> string set" where
  "keysAt v [] = (case v of JMap m \<Rightarrow> keysJ m | _ \<Rightarrow> {})"
| "keysAt v (Key k # p) = (case v of JMap m \<Rightarrow> keysAt (lookupJ m k) p | _ \<Rightarrow> {})"
| "keysAt v (Elem # p) = (case v of JSlice xs \<Rightarrow> (\<Union>x \<in> set xs. keysAt x p) | _ \<Rightarrow> {})"

function (sequential) sameShape :: "jvalue \<Rightarrow> jvalue \<Rightarrow> bool" where
  "sameShape b (JMap i) =
     (b = JNil \<or> (case b of JMap bm \<Rightarrow> list_all (\<lambda>(k, v). sameShape (lookupJ bm k) v) i | _ \<Rightarrow> False))"
| "sameShape b (JSlice i) =
     (b = JNil \<or>
      (case b of
         JSlice bs \<Rightarrow> (case i of [] \<Rightarrow> True | x # _ \<Rightarrow> sameShape (firstOrNil bs) x)
       | _ \<Rightarrow> False))"
| "sameShape b i = True"
  by pat_completeness auto
termination
proof (relation "measure (\<lambda>(b, i). size i)")
  show "wf (measure (\<lambda>(b, i). size i))" by simp
next
  fix b :: jvalue and i :: document and x :: "string \<times> jvalue" and xa y x11
  assume "x \<in> set i" "(xa, y) = x"
  then have "size y < size (JMap i)" using size_in_document [of xa y i] by simp
  then show "((lookupJ x11 xa, y), b, JMap i) \<in> measure (\<lambda>(b, i). size i)" by simp
next
  fix b :: jvalue and i :: "jvalue list" and x12 x21 x22
  assume "i = x21 # x22"
  then show "((firstOrNil x12, x21), b, JSlice i) \<in> measure (\<lambda>(b, i). size i)" by simp
qed

definition covers :: "jvalue \<Rightarrow> jvalue \<Rightarrow> bool" where
  "covers r a = (\<forall>p. keysAt a p \<subseteq> keysAt r p)"

section \<open>The payload merge\<close>

text \<open>
  \<open>mergeJSONDocuments\<close> takes the base as a Go map that may be nil (\<open>None\<close>); ranging
  over a nil \<open>updates\<close> map is ranging over the empty one.
\<close>

function mergeJSONDocuments :: "document option \<Rightarrow> document \<Rightarrow> document" where
  "mergeJSONDocuments base updates =
     fold (\<lambda>(k, v) base.
             if k = ''_id'' then base
             else (case v of
                 JMap vMap \<Rightarrow>
                   (let baseMap = (case lookupJ base k of JMap bm \<Rightarrow> bm | _ \<Rightarrow> [])
                    in AList.update k (JMap (mergeJSONDocuments (Some baseMap) vMap)) base)
               | _ \<Rightarrow> AList.update k v base))
          updates
          (case base of None \<Rightarrow> [] | Some b \<Rightarrow> b)"
  by pat_completeness auto
termination
proof (relation "measure (\<lambda>(b, u). size_list (size_prod (\<lambda>_. 0) size) u)")
  show "wf (measure (\<lambda>(b, u). size_list (size_prod (\<lambda>_. 0) size) u))" by simp
next
  fix base :: "document option" and updates :: document and x :: "string \<times> jvalue"
    and xa y and xb :: document and x11 xc
  assume "x \<in> set updates" "(xa, y) = x" "y = JMap x11"
  then have "(xa, JMap x11) \<in> set updates" by simp
  then have "size (JMap x11) < Suc (size_list (size_prod (\<lambda>_. 0) size) updates)"
    by (rule size_in_document)
  then show "((Some xc, x11), base, updates) \<in> measure (\<lambda>(b, u). size_list (size_prod (\<lambda>_. 0) size) u)"
    by simp
qed

text \<open>The body of the loop of \<open>mergeJSONDocuments\<close>, named for the proofs.\<close>

definition mergeStep :: "string \<times> jvalue \<Rightarrow> document \<Rightarrow> document" where
  "mergeStep = (\<lambda>(k, v) base.
             if k = ''_id'' then base
             else (case v of
                 JMap vMap \<Rightarrow>
                   (let baseMap = (case lookupJ base k of JMap bm \<Rightarrow> bm | _ \<Rightarrow> [])
                    in AList.update k (JMap (mergeJSONDocuments (Some baseMap) vMap)) base)
               | _ \<Rightarrow> AList.update k v base))"

section \<open>Strings, identities and copies\<close>

text \<open>
  A Go string is a byte sequence (\<open>string\<close>). \<open>TrimSpace\<close> follows
  \<^verbatim>\<open>strings.TrimSpace\<close>: it removes from both ends every UTF-8 encoded code point with
  the Unicode White_Space property. \<open>spacePrefixLen\<close> is the number of bytes of such a
  code point at the front of a string (0 when there is none), \<open>spaceSuffixLen\<close> the same
  at the end.
\<close>

definition asciiSpace :: "char \<Rightarrow> bool" where
  "asciiSpace c = (c = CHR 0x09 \<or> c = CHR 0x0A \<or> c = CHR 0x0B \<or> c = CHR 0x0C \<or> c = CHR 0x0D \<or> c = CHR 0x20)"

definition spaceTail3 :: "char \<Rightarrow> char \<Rightarrow> char \<Rightarrow> bool" where
  "spaceTail3 a b c =
     ((a = CHR 0xE1 \<and> b = CHR 0x9A \<and> c = CHR 0x80) \<or>
      (a = CHR 0xE2 \<and> b = CHR 0x80 \<and>
         ((0x80 \<le> (of_char c :: nat) \<and> (of_char c :: nat) \<le> 0x8A) \<or> c = CHR 0xA8 \<or> c = CHR 0xA9 \<or> c = CHR 0xAF)) \<or>
      (a = CHR 0xE2 \<and> b = CHR 0x81 \<and> c = CHR 0x9F) \<or>
      (a = CHR 0xE3 \<and> b = CHR 0x80 \<and> c = CHR 0x80))"

definition spaceTail2 :: "char \<Rightarrow> char \<Rightarrow> bool" where
  "spaceTail2 a b = (a = CHR 0xC2 \<and> (b = CHR 0x85 \<or> b = CHR 0xA0))"

fun spacePrefixLen :: "string \<Rightarrow> nat" where
  "spacePrefixLen (a # b # c # _) =
     (if asciiSpace a then 1 else if spaceTail2 a b then 2 else if spaceTail3 a b c then 3 else 0)"
| "spacePrefixLen [a, b] = (if asciiSpace a then 1 else if spaceTail2 a b then 2 else 0)"
| "spacePrefixLen [a] = (if asciiSpace a then 1 else 0)"
| "spacePrefixLen [] = 0"

fun spaceSuffixRev :: "string \<Rightarrow> nat" where
  "spaceSuffixRev (c # b # a # _) =
     (if asciiSpace c then 1 else if spaceTail2 b c then 2 else if spaceTail3 a b c then 3 else 0)"
| "spaceSuffixRev [c, b] = (if asciiSpace c then 1 else if spaceTail2 b c then 2 else 0)"
| "spaceSuffixRev [c] = (if asciiSpace c then 1 else 0)"
| "spaceSuffixRev [] = 0"

fun trimLeftRunes :: "string \<Rightarrow> string" where
  "trimLeftRunes [] = []"
| "trimLeftRunes (c # cs) =
     (let n = spacePrefixLen (c # cs) in if n = 0 then c # cs else trimLeftRunes (drop (n - 1) cs))"

text \<open>\<open>trimRightRev\<close> works on the reversed string, so that the end is at the front.\<close>

fun trimRightRev :: "string \<Rightarrow> string" where
  "trimRightRev [] = []"
| "trimRightRev (c # cs) =
     (let n = spaceSuffixRev (c # cs) in if n = 0 then c # cs else trimRightRev (drop (n - 1) cs))"

definition TrimSpace :: "string \<Rightarrow> string" where
  "TrimSpace s = rev (trimRightRev (rev (trimLeftRunes s)))"

text \<open>
  \<^verbatim>\<open>strings.ToLower\<close>, on the ASCII letters. No code point outside ASCII has one of the
  letters of \<^verbatim>\<open>true\<close> as its lower case, so the comparison of the source with
  \<^verbatim>\<open>"true"\<close> is decided by this function.
\<close>

definition toLowerChar :: "char \<Rightarrow> char" where
  "toLowerChar c =
     (if 0x41 \<le> (of_char c :: nat) \<and> (of_char c :: nat) \<le> 0x5A then char_of ((of_char c :: nat) + 0x20) else c)"

definition ToLower :: "string \<Rightarrow> string" where
  "ToLower s = map toLowerChar s"

text \<open>
  \<^verbatim>\<open>primitive.ObjectIDFromHex\<close>: the string must have 24 bytes, all of them hexadecimal
  digits of either case; the identity is the 12 bytes they encode.
\<close>

definition hexDigit :: "char \<Rightarrow> nat option" where
  "hexDigit c =
     (let n = (of_char c :: nat) in
      if 0x30 \<le> n \<and> n \<le> 0x39 then Some (n - 0x30)
      else if 0x61 \<le> n \<and> n \<le> 0x66 then Some (n - 0x61 + 10)
      else if 0x41 \<le> n \<and> n \<le> 0x46 then Some (n - 0x41 + 10)
      else None)"

fun hexDecode :: "string \<Rightarrow> 8 word list option" where
  "hexDecode [] = Some []"
| "hexDecode [c] = None"
| "hexDecode (a # b # rest) =
     (case (hexDigit a, hexDigit b) of
        (Some hi, Some lo) \<Rightarrow>
          (case hexDecode rest of None \<Rightarrow> None | Some bs \<Rightarrow> Some (of_nat (16 * hi + lo) # bs))
      | _ \<Rightarrow> None)"

definition ObjectIDFromHex :: "string \<Rightarrow> objectID option" where
  "ObjectIDFromHex s = (if length s \<noteq> 24 then None else hexDecode s)"

text \<open>
  \<open>deepCopyValue\<close> and \<open>cloneMap\<close>. A nested nil map is not told apart from the empty
  map inside a value; \<open>cloneMap\<close> itself takes and returns a map that may be nil.
\<close>

fun deepCopyValue :: "jvalue \<Rightarrow> jvalue" where
  "deepCopyValue (JMap v) =
     JMap (fold (\<lambda>(key, val) cloned. AList.update key (deepCopyValue val) cloned) v [])"
| "deepCopyValue (JSlice v) = JSlice (map deepCopyValue v)"
| "deepCopyValue (JPrimM v) =
     JMap (fold (\<lambda>(key, val) cloned. AList.update key (deepCopyValue val) cloned) v [])"
| "deepCopyValue (JPrimA v) = JSlice (map deepCopyValue v)"
| "deepCopyValue v = v"

definition cloneMap :: "document option \<Rightarrow> document option" where
  "cloneMap src =
     (case src of
        None \<Rightarrow> None
      | Some m \<Rightarrow> Some (fold (\<lambda>(key, val) cloned. AList.update key (deepCopyValue val) cloned) m []))"

section \<open>Databases, environment and errors\<close>

text \<open>
  A collection of documents is a finite map from the value of the \<^verbatim>\<open>_id\<close> field to the
  document: MongoDB keeps \<^verbatim>\<open>_id\<close> unique within a collection. A database holds the
  three collections the code touches; the server (\<open>world\<close>) maps every database name to
  a database, since MongoDB creates databases and collections on first use. The template
  registry is keyed by \<^verbatim>\<open>template_key\<close>, and the client registry is the sequence of its
  documents in cursor order.
\<close>

type_synonym collection = "(jvalue, document) fmap"

record template_record =
  documents :: "document list"
  updated_at :: nat

record database =
  structure_templates :: "(string, template_record) fmap"
  db_clients :: "document list"
  structure_websites :: collection

type_synonym world = "string \<Rightarrow> database"

text \<open>
  The operations of the driver that can fail. \<open>fault\<close> of the environment says which of
  them return an error; the source turns each such error into an early return.
\<close>

datatype dbop =
    OpGetMongoDB
  | OpFindOne string jvalue
  | OpReplaceOne string jvalue
  | OpCountDocuments
  | OpUpdateOne string
  | OpFind
  | OpDeleteMany string
  | OpCursor

text \<open>
  The environment of a request: the two environment variables (the empty string when
  unset, as \<^verbatim>\<open>os.Getenv\<close> gives), whether \<^verbatim>\<open>db.MongoClient\<close> is set, the clock, the
  faults, and the identities that successive calls of \<^verbatim>\<open>primitive.NewObjectID\<close> return.
\<close>

record env =
  LOCAL_DEVELOPMENT :: string
  MONGO_DB_NAME :: string
  mongoClientSet :: bool
  now :: nat
  fault :: "dbop \<Rightarrow> bool"
  NewObjectID :: "nat \<Rightarrow> objectID"

datatype doc_error =
    ErrInvalidIdValue string
  | ErrIdType jvalue
  | ErrNilMapAssignment

datatype error =
    ErrLocalDevelopmentOnly
  | ErrIdRequired
  | ErrPayloadNil
  | ErrInvalidIdFormat
  | ErrDriver dbop
  | ErrTemplateKeyRequired
  | ErrDocumentsEmpty
  | ErrDocument nat doc_error
  | ErrNoUsableDocuments
  | ErrMongoClientNotInitialized
  | ErrCountClients
  | ErrUpsertTemplate
  | ErrQueryClients
  | ErrDecodeClient
  | ErrClientUpsert string
  | ErrClientDelete string
  | ErrCursorIteration

section \<open>Replacing one document\<close>

text \<open>
  \<open>UpdateStructureWebsite\<close> works on the \<^verbatim>\<open>structure_websites\<close> collection of the database
  \<open>tenant\<close> that the request context selects. The payload is a Go map that may be nil.
  The result is the server after the call and the returned document or error.
\<close>

definition UpdateStructureWebsite ::
  "env \<Rightarrow> string \<Rightarrow> world \<Rightarrow> string \<Rightarrow> document option \<Rightarrow> world \<times> (error + document)" where
  "UpdateStructureWebsite e tenant w id' payload =
     (if ToLower (LOCAL_DEVELOPMENT e) \<noteq> ''true'' then (w, Inl ErrLocalDevelopmentOnly)
      else if id' = [] then (w, Inl ErrIdRequired)
      else (case payload of
          None \<Rightarrow> (w, Inl ErrPayloadNil)
        | Some p \<Rightarrow>
           if fault e OpGetMongoDB then (w, Inl (ErrDriver OpGetMongoDB))
           else (case ObjectIDFromHex id' of
               None \<Rightarrow> (w, Inl ErrInvalidIdFormat)
             | Some objectID \<Rightarrow>
                (let collection = structure_websites (w tenant);
                     key = JObjectID objectID in
                 if fault e (OpFindOne tenant key) then (w, Inl (ErrDriver (OpFindOne tenant key)))
                 else
                   (let existingDoc = (case fmlookup collection key of
                                         None \<Rightarrow> [(''_id'', key)]
                                       | Some d \<Rightarrow> d);
                        doc = AList.update ''_id'' key (mergeJSONDocuments (Some existingDoc) p) in
                    if fault e (OpReplaceOne tenant key) then (w, Inl (ErrDriver (OpReplaceOne tenant key)))
                    else (w(tenant := (w tenant)\<lparr>structure_websites := fmupd key doc collection\<rparr>),
                          Inr doc))))))"

section \<open>Applying a template\<close>

record TemplateApplySummary =
  TemplateKey :: string
  TargetField :: string
  ClientNames :: "string list"
  UpdatedDocuments :: nat
  DeletedDocuments :: nat

text \<open>
  The last two statements of \<open>prepareTemplateDocument\<close>: the assignment
  \<^verbatim>\<open>sanitized["_id"] = id\<close>, which panics on the nil map, and the return. The third
  component counts the identities generated so far.
\<close>

definition assignIdentity ::
  "document option \<Rightarrow> objectID \<Rightarrow> nat \<Rightarrow> doc_error + (document \<times> objectID \<times> nat)" where
  "assignIdentity sanitized oid n =
     (case sanitized of
        None \<Rightarrow> Inl ErrNilMapAssignment
      | Some s \<Rightarrow> Inr (AList.update ''_id'' (JObjectID oid) s, oid, n))"

definition prepareTemplateDocument ::
  "env \<Rightarrow> nat \<Rightarrow> document option \<Rightarrow> doc_error + (document \<times> objectID \<times> nat)" where
  "prepareTemplateDocument e n doc =
     (let sanitized = sanitizeTemplateDocument doc in
      case (case doc of None \<Rightarrow> None | Some d \<Rightarrow> map_of d ''_id'') of
        Some (JString s) \<Rightarrow>
          (let v = TrimSpace s in
           if v = [] then assignIdentity sanitized (NewObjectID e n) (Suc n)
           else (case ObjectIDFromHex v of
               None \<Rightarrow> Inl (ErrInvalidIdValue v)
             | Some objectID \<Rightarrow> assignIdentity sanitized objectID n))
      | Some (JObjectID v) \<Rightarrow> assignIdentity sanitized v n
      | Some rawID \<Rightarrow> Inl (ErrIdType rawID)
      | None \<Rightarrow> assignIdentity sanitized (NewObjectID e n) (Suc n))"

text \<open>The first loop of \<open>ApplyStructureTemplate\<close>, over the documents with their index.\<close>

fun prepareDocuments ::
  "env \<Rightarrow> nat \<Rightarrow> nat \<Rightarrow> document option list \<Rightarrow> document list \<Rightarrow> objectID list \<Rightarrow>
   error + (document list \<times> objectID list)" where
  "prepareDocuments e n idx [] sanitizedDocs templateIDs = Inr (sanitizedDocs, templateIDs)"
| "prepareDocuments e n idx (None # rest) sanitizedDocs templateIDs =
     prepareDocuments e n (Suc idx) rest sanitizedDocs templateIDs"
| "prepareDocuments e n idx (Some rawDoc # rest) sanitizedDocs templateIDs =
     (case prepareTemplateDocument e n (Some rawDoc) of
        Inl err \<Rightarrow> Inl (ErrDocument idx err)
      | Inr (sanitized, docID, n') \<Rightarrow>
          prepareDocuments e n' (Suc idx) rest (sanitizedDocs @ [sanitized]) (templateIDs @ [docID]))"

text \<open>
  The filter \<^verbatim>\<open>bson.M{field: templateKey}\<close> on the client registry (a registry document
  matches when it holds the template key, a string, under the field), and the decoding of
  a registry document into the struct with the one field \<^verbatim>\<open>client_name\<close>: a missing or
  null field leaves the empty string, a value of another type is a decoding error.
\<close>

definition matchesFilter :: "string \<Rightarrow> string \<Rightarrow> document \<Rightarrow> bool" where
  "matchesFilter field templateKey clientDoc = (lookupJ clientDoc field = JString templateKey)"

definition decodeClientName :: "document \<Rightarrow> string option" where
  "decodeClientName clientDoc =
     (case lookupJ clientDoc ''client_name'' of
        JString s \<Rightarrow> Some s
      | JNil \<Rightarrow> Some []
      | _ \<Rightarrow> None)"

text \<open>
  The inner loop: every template document is copied and written with
  \<^verbatim>\<open>ReplaceOne\<close> and upsert under the filter on its \<^verbatim>\<open>_id\<close>. The result is the
  collection, the count of updated documents and whether all writes succeeded; writes
  made before a failing one stay.
\<close>

fun upsertDocuments ::
  "env \<Rightarrow> string \<Rightarrow> document list \<Rightarrow> collection \<Rightarrow> nat \<Rightarrow> collection \<times> nat \<times> bool" where
  "upsertDocuments e clientName [] coll updated = (coll, updated, True)"
| "upsertDocuments e clientName (templateDoc # rest) coll updated =
     (case cloneMap (Some templateDoc) of
        None \<Rightarrow> (coll, updated, False)
      | Some docCopy \<Rightarrow>
          (let key = lookupJ docCopy ''_id'' in
           if fault e (OpReplaceOne clientName key) then (coll, updated, False)
           else upsertDocuments e clientName rest (fmupd key docCopy coll) (Suc updated)))"

text \<open>\<^verbatim>\<open>DeleteMany\<close> with the filter \<^verbatim>\<open>{_id: {$nin: templateIDs}}\<close>, and its count.\<close>

definition deleteNotIn :: "objectID list \<Rightarrow> collection \<Rightarrow> collection \<times> nat" where
  "deleteNotIn templateIDs coll =
     (fmfilter (\<lambda>k. k \<in> JObjectID ` set templateIDs) coll,
      fcard (fmdom (fmfilter (\<lambda>k. k \<notin> JObjectID ` set templateIDs) coll)))"

text \<open>The loop over the cursor of matching registry documents.\<close>

fun processClients ::
  "env \<Rightarrow> document list \<Rightarrow> objectID list \<Rightarrow> document list \<Rightarrow> world \<Rightarrow> TemplateApplySummary \<Rightarrow>
   world \<times> (error + TemplateApplySummary)" where
  "processClients e sanitizedDocs templateIDs [] w summary = (w, Inr summary)"
| "processClients e sanitizedDocs templateIDs (clientDoc # rest) w summary =
     (case decodeClientName clientDoc of
        None \<Rightarrow> (w, Inl ErrDecodeClient)
      | Some name \<Rightarrow>
          (let clientName = TrimSpace name in
           if clientName = [] then processClients e sanitizedDocs templateIDs rest w summary
           else
             (case upsertDocuments e clientName sanitizedDocs (structure_websites (w clientName))
                     (UpdatedDocuments summary) of
                (coll, updated, ok) \<Rightarrow>
                  if \<not> ok
                  then (w(clientName := (w clientName)\<lparr>structure_websites := coll\<rparr>),
                        Inl (ErrClientUpsert clientName))
                  else if fault e (OpDeleteMany clientName)
                  then (w(clientName := (w clientName)\<lparr>structure_websites := coll\<rparr>),
                        Inl (ErrClientDelete clientName))
                  else
                    (case deleteNotIn templateIDs coll of
                       (coll', deletedCount) \<Rightarrow>
                         processClients e sanitizedDocs templateIDs rest
                           (w(clientName := (w clientName)\<lparr>structure_websites := coll'\<rparr>))
                           (summary\<lparr>UpdatedDocuments := updated,
                                    DeletedDocuments := DeletedDocuments summary + deletedCount,
                                    ClientNames := ClientNames summary @ [clientName]\<rparr>)))))"

definition ApplyStructureTemplate ::
  "env \<Rightarrow> world \<Rightarrow> string \<Rightarrow> document option list \<Rightarrow> string \<Rightarrow>
   world \<times> (error + TemplateApplySummary)" where
  "ApplyStructureTemplate e w templateKey docs targetField0 =
     (if templateKey = [] then (w, Inl ErrTemplateKeyRequired)
      else if length docs = 0 then (w, Inl ErrDocumentsEmpty)
      else (case prepareDocuments e 0 0 docs [] [] of
          Inl err \<Rightarrow> (w, Inl err)
        | Inr (sanitizedDocs, templateIDs) \<Rightarrow>
           if length sanitizedDocs = 0 then (w, Inl ErrNoUsableDocuments)
           else
             (let targetField = (if targetField0 = [] then ''structure_template'' else targetField0) in
              if \<not> mongoClientSet e then (w, Inl ErrMongoClientNotInitialized)
              else
                (let coreDBName = (if MONGO_DB_NAME e = [] then ''core'' else MONGO_DB_NAME e);
                     clients = db_clients (w coreDBName) in
                 if targetField = ''structure_template'' \<and> fault e OpCountDocuments
                 then (w, Inl ErrCountClients)
                 else
                   (let effectiveField =
                          (if targetField = ''structure_template'' \<and>
                              length (filter (matchesFilter targetField templateKey) clients) = 0
                           then ''template'' else targetField);
                        docsForStorage = map (\<lambda>doc. case cloneMap (Some doc) of None \<Rightarrow> [] | Some c \<Rightarrow> c)
                                           sanitizedDocs in
                    if fault e (OpUpdateOne templateKey) then (w, Inl ErrUpsertTemplate)
                    else
                      (let w1 = w(coreDBName := (w coreDBName)
                                    \<lparr>structure_templates :=
                                       fmupd templateKey
                                         \<lparr>documents = docsForStorage, updated_at = now e\<rparr>
                                         (structure_templates (w coreDBName))\<rparr>) in
                       if fault e OpFind then (w1, Inl ErrQueryClients)
                       else
                         (case processClients e sanitizedDocs templateIDs
                                 (filter (matchesFilter effectiveField templateKey) clients) w1
                                 \<lparr>TemplateKey = templateKey, TargetField = effectiveField,
                                  ClientNames = [], UpdatedDocuments = 0, DeletedDocuments = 0\<rparr> of
                            (w2, Inl err) \<Rightarrow> (w2, Inl err)
                          | (w2, Inr summary) \<Rightarrow>
                              if fault e OpCursor then (w2, Inl ErrCursorIteration)
                              else (w2, Inr (summary\<lparr>ClientNames := sort (ClientNames summary)\<rparr>)))))))))"



definition trimmedNames :: "document list \<Rightarrow> string list" where
  "trimmedNames cursor =
     filter (\<lambda>name. name \<noteq> [])
       (map (\<lambda>clientDoc. TrimSpace (case decodeClientName clientDoc of None \<Rightarrow> [] | Some s \<Rightarrow> s)) cursor)"


text \<open>
  The name of the shared database, the target field after defaulting, the effective field,
  and the registry documents that the cursor of \<open>ApplyStructureTemplate\<close> ranges over, as
  functions of the inputs.
\<close>

definition coreDBName :: "env \<Rightarrow> string" where
  "coreDBName e = (if MONGO_DB_NAME e = [] then ''core'' else MONGO_DB_NAME e)"




section \<open>Concrete inputs\<close>

text \<open>Inputs at which the theorems below are instantiated.\<close>

definition env_dev :: env where
  "env_dev = \<lparr>LOCAL_DEVELOPMENT = ''TRUE'', MONGO_DB_NAME = [], mongoClientSet = True, now = 7,
              fault = (\<lambda>_. False), NewObjectID = (\<lambda>n. replicate 12 (of_nat n))\<rparr>"

definition env_prod :: env where
  "env_prod = env_dev\<lparr>LOCAL_DEVELOPMENT := []\<rparr>"

definition empty_database :: database where
  "empty_database = \<lparr>structure_templates = fmempty, db_clients = [], structure_websites = fmempty\<rparr>"

definition empty_world :: world where
  "empty_world = (\<lambda>_. empty_database)"

definition oid_111 :: objectID where
  "oid_111 = [0x65, 0x2f, 0x78, 0x1b, 0x0b, 0x0f, 0x5f, 0x6c, 0x1b, 0x3d, 0xd1, 0x11]"

definition doc_no_id :: document where
  "doc_no_id = [(''slug'', JString ''home'')]"

definition doc_hex_id :: document where
  "doc_hex_id = [(''_id'', JString '' 652f781b0b0f5f6c1b3dd111 ''), (''slug'', JString ''home'')]"

definition doc_bad_id :: document where
  "doc_bad_id = [(''_id'', JString ''xyz''), (''slug'', JString ''home'')]"












definition elem_x_scalar :: jvalue where
  "elem_x_scalar = JMap [(''x'', JString ''s'')]"

definition elem_x_object :: jvalue where
  "elem_x_object = JMap [(''x'', JMap [(''y'', JInt 1)])]"

definition fields_p :: document where
  "fields_p = [(''x'', JMap [(''p'', JInt 1)])]"

definition fields_q :: document where
  "fields_q = [(''x'', JMap [(''q'', JString ''t'')]), (''z'', JBool True)]"

section \<open>Properties of the sanitizer\<close>

declare mergeTemplateValues.simps [simp del]

lemma merge_JNil_base [simp]: "mergeTemplateValues JNil i = copyTemplateValue i"
  by (simp add: mergeTemplateValues.simps)

lemma merge_JNil_incoming [simp]: "mergeTemplateValues b JNil = b"
  by (simp add: mergeTemplateValues.simps)

lemma mergeFields_Nil [simp]: "mergeFields b [] = b"
  by (simp add: mergeFields_def)

lemma mergeFields_Cons [simp]:
  "mergeFields b ((k, v) # inc) =
     mergeFields (AList.update k (mergeTemplateValues (lookupJ b k) v) b) inc"
  by (simp add: mergeFields_def)

lemma merge_JMap: "i \<noteq> JNil \<Longrightarrow> mergeTemplateValues (JMap b) i = JMap (mergeFields b (toTemplateMap i))"
  by (subst mergeTemplateValues.simps) (simp add: mergeFields_def)

lemma merge_JSlice:
  "i \<noteq> JNil \<Longrightarrow> mergeTemplateValues (JSlice b) i =
     (if b = [] \<and> toTemplateSlice i = [] then JSlice []
      else if mergeTemplateValues (firstOrNil b) (firstOrNil (toTemplateSlice i)) = JNil then JSlice []
      else JSlice [mergeTemplateValues (firstOrNil b) (firstOrNil (toTemplateSlice i))])"
  by (subst mergeTemplateValues.simps) (simp add: Let_def)

lemma merge_scalar:
  "b \<noteq> JNil \<Longrightarrow> (\<forall>m. b \<noteq> JMap m) \<Longrightarrow> (\<forall>xs. b \<noteq> JSlice xs) \<Longrightarrow> mergeTemplateValues b i = b"
  by (subst mergeTemplateValues.simps) (cases b; simp)

lemma update_fresh: "k \<notin> fst ` set al \<Longrightarrow> AList.update k v al = al @ [(k, v)]"
  by (induction al) auto

lemma lookupJ_fresh: "k \<notin> fst ` set al \<Longrightarrow> lookupJ al k = JNil"
  using map_of_eq_None_iff [of al k] by (simp add: lookupJ_def)

lemma fold_update_fresh:
  "distinct (map fst (acc @ m)) \<Longrightarrow>
   (\<And>k v r. (k, v) \<in> set m \<Longrightarrow> k \<notin> fst ` set r \<Longrightarrow> h k v r = v) \<Longrightarrow>
   fold (\<lambda>(k, v) r. AList.update k (h k v r) r) m acc = acc @ m"
proof (induction m arbitrary: acc)
  case Nil
  show ?case by simp
next
  case (Cons a m)
  obtain k v where a: "a = (k, v)" by (cases a)
  from Cons.prems(1) a have fresh: "k \<notin> fst ` set acc" by auto
  have hv: "h k v acc = v" using Cons.prems(2) [of k v acc] a fresh by simp
  have d: "distinct (map fst ((acc @ [(k, v)]) @ m))" using Cons.prems(1) a by simp
  have "fold (\<lambda>(k, v) r. AList.update k (h k v r) r) m (acc @ [(k, v)]) = (acc @ [(k, v)]) @ m"
    using Cons.IH [OF d] Cons.prems(2) by simp
  then show ?case using a hv fresh by (simp add: update_fresh)
qed

lemma copy_skeleton: "isSkeleton s \<Longrightarrow> copyTemplateValue s = s"
proof (induction s rule: isSkeleton.induct)
  case (4 m)
  then have d: "distinct (map fst ([] @ m))" by simp
  have "fold (\<lambda>(k, v) r. AList.update k (copyTemplateValue v) r) m [] = [] @ m"
  proof (rule fold_update_fresh [OF d])
    fix k v and r :: document
    assume "(k, v) \<in> set m"
    with 4 show "copyTemplateValue v = v" by (auto simp: list_all_iff)
  qed
  then show ?case by simp
qed simp_all


lemma lookupJ_cases: "lookupJ m k = JNil \<or> (k, lookupJ m k) \<in> set m"
  by (auto simp: lookupJ_def split: option.splits dest: map_of_SomeD)

lemma lookupJ_singleton [simp]: "lookupJ [(k, v)] k = v"
  by (simp add: lookupJ_def)

lemma set_update_cases:
  "p \<in> set (AList.update k v al) \<Longrightarrow> p = (k, v) \<or> p \<in> set al"
  by (induction al) (auto split: if_splits)

lemma copy_nonnil: "v \<noteq> JNil \<Longrightarrow> copyTemplateValue v \<noteq> JNil"
  by (cases v) simp_all

lemma merge_nonnil: "b \<noteq> JNil \<or> i \<noteq> JNil \<Longrightarrow> mergeTemplateValues b i \<noteq> JNil"
proof (cases "b = JNil")
  case True
  assume "b \<noteq> JNil \<or> i \<noteq> JNil"
  with True show ?thesis by (simp add: copy_nonnil)
next
  case False
  show ?thesis
  proof (cases "i = JNil")
    case True
    with False show ?thesis by simp
  next
    case inn: False
    show ?thesis
    proof (cases b)
      case (JMap m)
      with inn show ?thesis by (simp add: merge_JMap)
    next
      case (JSlice xs)
      with inn show ?thesis by (simp add: merge_JSlice)
    qed (use False in \<open>simp_all add: merge_scalar\<close>)
  qed
qed

lemma toTemplateMap_skeleton:
  "isSkeleton i \<Longrightarrow> (k, v) \<in> set (toTemplateMap i) \<Longrightarrow> isSkeleton v"
proof (induction i rule: isSkeleton.induct)
  case (4 m)
  then show ?case by (auto simp: list_all_iff)
next
  case (6 e)
  then show ?case by (cases e) (auto simp: list_all_iff)
qed simp_all

lemma firstOrNil_toTemplateSlice_skeleton:
  "isSkeleton i \<Longrightarrow> nilOrSkeleton (firstOrNil (toTemplateSlice i))"
  by (induction i rule: isSkeleton.induct)
     (simp_all add: firstOrNil_def nilOrSkeleton_def)

lemma firstOrNil_skeleton: "isSkeleton (JSlice b) \<Longrightarrow> nilOrSkeleton (firstOrNil b)"
proof (cases b)
  case Nil
  then show ?thesis by (simp add: firstOrNil_def nilOrSkeleton_def)
next
  case (Cons x xs)
  assume "isSkeleton (JSlice b)"
  with Cons show ?thesis by (cases xs) (simp_all add: firstOrNil_def nilOrSkeleton_def)
qed

lemma mergeFields_skeleton:
  "isSkeleton (JMap b) \<Longrightarrow>
   (\<And>k v b'. (k, v) \<in> set inc \<Longrightarrow> nilOrSkeleton b' \<Longrightarrow> isSkeleton (mergeTemplateValues b' v)) \<Longrightarrow>
   isSkeleton (JMap (mergeFields b inc))"
proof (induction inc arbitrary: b)
  case Nil
  then show ?case by simp
next
  case (Cons a inc)
  obtain k v where a: "a = (k, v)" by (cases a)
  let ?b = "AList.update k (mergeTemplateValues (lookupJ b k) v) b"
  have "nilOrSkeleton (lookupJ b k)"
    using lookupJ_cases [of b k] Cons.prems(1) by (auto simp: nilOrSkeleton_def list_all_iff)
  then have m: "isSkeleton (mergeTemplateValues (lookupJ b k) v)"
    using Cons.prems(2) [of k v] a by simp
  have sb: "isSkeleton (JMap ?b)"
    using Cons.prems(1) m by (auto simp: list_all_iff distinct_update dest!: set_update_cases)
  have "isSkeleton (JMap (mergeFields ?b inc))"
  proof (rule Cons.IH [OF sb])
    fix k' v' b'
    assume "(k', v') \<in> set inc" "nilOrSkeleton b'"
    then show "isSkeleton (mergeTemplateValues b' v')" using Cons.prems(2) [of k' v' b'] by simp
  qed
  then show ?case using a by simp
qed

lemma merge_skeleton:
  "nilOrSkeleton b \<Longrightarrow> nilOrSkeleton i \<Longrightarrow> nilOrSkeleton (mergeTemplateValues b i)"
proof (induction b i rule: mergeTemplateValues.induct)
  case (1 base incoming)
  show ?case
  proof (cases "base = JNil")
    case True
    with 1(4) show ?thesis by (auto simp: nilOrSkeleton_def copy_skeleton)
  next
    case bnn: False
    show ?thesis
    proof (cases "incoming = JNil")
      case True
      with 1(3) show ?thesis by simp
    next
      case inn: False
      from bnn 1(3) have bs: "isSkeleton base" by (simp add: nilOrSkeleton_def)
      from inn 1(4) have isk: "isSkeleton incoming" by (simp add: nilOrSkeleton_def)
      show ?thesis
      proof (cases base)
        case (JMap m)
        have "isSkeleton (JMap (mergeFields m (toTemplateMap incoming)))"
        proof (rule mergeFields_skeleton)
          show "isSkeleton (JMap m)" using bs JMap by simp
        next
          fix k v b'
          assume kv: "(k, v) \<in> set (toTemplateMap incoming)" and b': "nilOrSkeleton b'"
          have "nilOrSkeleton v" using toTemplateMap_skeleton [OF isk kv] by (simp add: nilOrSkeleton_def)
          then have "nilOrSkeleton (mergeTemplateValues (lookupJ [(k, b')] k) v)"
            using 1(1) [OF bnn inn JMap kv refl, of "[(k, b')]"] b' by simp
          moreover have "v \<noteq> JNil" using toTemplateMap_skeleton [OF isk kv] by auto
          then have "mergeTemplateValues b' v \<noteq> JNil" by (simp add: merge_nonnil)
          ultimately show "isSkeleton (mergeTemplateValues b' v)" by (simp add: nilOrSkeleton_def)
        qed
        with JMap inn show ?thesis by (simp add: merge_JMap nilOrSkeleton_def)
      next
        case (JSlice xs)
        have fb: "nilOrSkeleton (firstOrNil xs)" using bs JSlice firstOrNil_skeleton by simp
        have fi: "nilOrSkeleton (firstOrNil (toTemplateSlice incoming))"
          using isk firstOrNil_toTemplateSlice_skeleton by simp
        show ?thesis
        proof (cases "length xs = 0 \<and> length (toTemplateSlice incoming) = 0")
          case True
          with JSlice inn show ?thesis by (simp add: merge_JSlice nilOrSkeleton_def)
        next
          case False
          have "nilOrSkeleton (mergeTemplateValues (firstOrNil xs) (firstOrNil (toTemplateSlice incoming)))"
            using 1(2) [OF bnn inn JSlice refl False refl refl] fb fi by simp
          with JSlice inn show ?thesis by (auto simp: merge_JSlice nilOrSkeleton_def)
        qed
      qed (use bs in \<open>simp_all add: merge_scalar nilOrSkeleton_def\<close>)
    qed
  qed
qed


lemma build_nonnil: "buildTemplateValue v \<noteq> JNil"
  by (induction v rule: buildTemplateValue.induct) (simp_all add: Let_def)

lemma fold_merge_skeleton:
  "nilOrSkeleton acc \<Longrightarrow> (\<And>x. x \<in> set xs \<Longrightarrow> isSkeleton (f x)) \<Longrightarrow>
   nilOrSkeleton (fold (\<lambda>item element. mergeTemplateValues element (f item)) xs acc)"
proof (induction xs arbitrary: acc)
  case Nil
  then show ?case by simp
next
  case (Cons x xs)
  have "nilOrSkeleton (f x)" using Cons.prems(2) [of x] by (simp add: nilOrSkeleton_def)
  then have "nilOrSkeleton (mergeTemplateValues acc (f x))"
    using Cons.prems(1) by (rule merge_skeleton [rotated])
  then show ?case using Cons.IH [of "mergeTemplateValues acc (f x)"] Cons.prems(2) by simp
qed

lemma fold_build_fields_skeleton:
  "isSkeleton (JMap acc) \<Longrightarrow> (\<And>k v. (k, v) \<in> set m \<Longrightarrow> isSkeleton (f v)) \<Longrightarrow>
   isSkeleton (JMap (fold (\<lambda>(key, raw) result.
       AList.update key (mergeTemplateValues (lookupJ result key) (f raw)) result) m acc))"
proof (induction m arbitrary: acc)
  case Nil
  then show ?case by simp
next
  case (Cons a m)
  obtain k v where a: "a = (k, v)" by (cases a)
  let ?acc = "AList.update k (mergeTemplateValues (lookupJ acc k) (f v)) acc"
  have fv: "isSkeleton (f v)" using Cons.prems(2) [of k v] a by simp
  have "nilOrSkeleton (lookupJ acc k)"
    using lookupJ_cases [of acc k] Cons.prems(1) by (auto simp: nilOrSkeleton_def list_all_iff)
  moreover have "nilOrSkeleton (f v)" using fv by (simp add: nilOrSkeleton_def)
  ultimately have "nilOrSkeleton (mergeTemplateValues (lookupJ acc k) (f v))"
    by (rule merge_skeleton)
  moreover have "f v \<noteq> JNil" using fv by auto
  ultimately have m: "isSkeleton (mergeTemplateValues (lookupJ acc k) (f v))"
    using merge_nonnil [of "lookupJ acc k" "f v"] by (simp add: nilOrSkeleton_def)
  have sb: "isSkeleton (JMap ?acc)"
    using Cons.prems(1) m by (auto simp: list_all_iff distinct_update dest!: set_update_cases)
  have "isSkeleton (JMap (fold (\<lambda>(key, raw) result.
       AList.update key (mergeTemplateValues (lookupJ result key) (f raw)) result) m ?acc))"
  proof (rule Cons.IH [OF sb])
    fix k' v'
    assume "(k', v') \<in> set m"
    then show "isSkeleton (f v')" using Cons.prems(2) [of k' v'] by simp
  qed
  then show ?case using a by simp
qed

lemma build_skeleton: "isSkeleton (buildTemplateValue v)"
proof (induction v rule: buildTemplateValue.induct)
  case (1 v)
  have "isSkeleton (JMap (fold (\<lambda>(key, raw) result.
       AList.update key (mergeTemplateValues (lookupJ result key) (buildTemplateValue raw)) result) v []))"
    by (rule fold_build_fields_skeleton) (use 1 in auto)
  then show ?case by simp
next
  case (3 v)
  have "nilOrSkeleton (fold (\<lambda>item element. mergeTemplateValues element (buildTemplateValue item)) v JNil)"
    by (rule fold_merge_skeleton) (use 3 in \<open>auto simp: nilOrSkeleton_def\<close>)
  then show ?case by (auto simp: Let_def nilOrSkeleton_def)
qed simp_all

lemma build_fixpoint: "isSkeleton s \<Longrightarrow> buildTemplateValue s = s"
proof (induction s rule: isSkeleton.induct)
  case (4 m)
  then have d: "distinct (map fst ([] @ m))" by simp
  have "fold (\<lambda>(k, v) r. AList.update k (mergeTemplateValues (lookupJ r k) (buildTemplateValue v)) r) m [] = [] @ m"
  proof (rule fold_update_fresh [OF d])
    fix k v and r :: document
    assume kv: "(k, v) \<in> set m" and "k \<notin> fst ` set r"
    then have "lookupJ r k = JNil" by (simp add: lookupJ_fresh)
    moreover have "buildTemplateValue v = v" "isSkeleton v" using 4 kv by (auto simp: list_all_iff)
    ultimately show "mergeTemplateValues (lookupJ r k) (buildTemplateValue v) = v"
      by (simp add: copy_skeleton)
  qed
  then show ?case by simp
next
  case (6 e)
  then show ?case by (auto simp: Let_def copy_skeleton)
qed simp_all


lemma fold_merge_foldl:
  "fold (\<lambda>item element. mergeTemplateValues element (buildTemplateValue item)) v acc =
   foldl mergeTemplateValues acc (map buildTemplateValue v)"
  by (induction v arbitrary: acc) simp_all

lemma foldl_merge_nonnil:
  "acc \<noteq> JNil \<Longrightarrow> foldl mergeTemplateValues acc (map buildTemplateValue xs) \<noteq> JNil"
  by (induction xs arbitrary: acc) (simp_all add: merge_nonnil)

lemma build_JSlice_Cons:
  "buildTemplateValue (JSlice (x # xs)) =
     JSlice [foldl mergeTemplateValues JNil (map buildTemplateValue (x # xs))]"
proof -
  have "copyTemplateValue (buildTemplateValue x) \<noteq> JNil"
    by (simp add: copy_nonnil build_nonnil)
  then have "foldl mergeTemplateValues JNil (map buildTemplateValue (x # xs)) \<noteq> JNil"
    by (simp add: foldl_merge_nonnil)
  then show ?thesis
    unfolding buildTemplateValue.simps fold_merge_foldl Let_def by simp
qed

lemma fold_build_fields_keys:
  "fst ` set (fold (\<lambda>(key, raw) result.
       AList.update key (mergeTemplateValues (lookupJ result key) (f raw)) result) m acc)
   = fst ` set acc \<union> fst ` set m"
proof (induction m arbitrary: acc)
  case Nil
  show ?case by simp
next
  case (Cons a m)
  obtain k v where a: "a = (k, v)" by (cases a)
  show ?case using Cons.IH a by (simp add: dom_update)
qed


lemma build_JMap_is_map: "\<exists>m. buildTemplateValue (JMap d) = JMap m"
  by simp

text \<open>
  Claim C4. Sanitization is idempotent: sanitizing the skeleton produced from any document
  tree gives that same skeleton, both for \<open>buildTemplateValue\<close> on values and for
  \<open>sanitizeTemplateDocument\<close> on documents (the nil document included).
\<close>

theorem sanitize_idempotent:
  "buildTemplateValue (buildTemplateValue v) = buildTemplateValue v \<and>
   sanitizeTemplateDocument (sanitizeTemplateDocument doc) = sanitizeTemplateDocument doc"
proof
  show "buildTemplateValue (buildTemplateValue v) = buildTemplateValue v"
    by (simp add: build_fixpoint build_skeleton)
next
  show "sanitizeTemplateDocument (sanitizeTemplateDocument doc) = sanitizeTemplateDocument doc"
  proof (cases doc)
    case None
    then show ?thesis by (simp add: sanitizeTemplateDocument_def)
  next
    case (Some d)
    obtain m where m: "buildTemplateValue (JMap d) = JMap m"
      using build_JMap_is_map by blast
    have "buildTemplateValue (JMap m) = JMap m"
      using build_fixpoint [of "JMap m"] build_skeleton [of "JMap d"] m by simp
    with Some m show ?thesis by (simp add: sanitizeTemplateDocument_def del: buildTemplateValue.simps)
  qed
qed

subsection \<open>Keys at every nesting level\<close>

lemma keysAt_scalar:
  "\<forall>m. v \<noteq> JMap m \<Longrightarrow> \<forall>xs. v \<noteq> JSlice xs \<Longrightarrow> keysAt v p = {}"
proof (cases p)
  case Nil
  assume "\<forall>m. v \<noteq> JMap m"
  with Nil show ?thesis by (cases v) auto
next
  case (Cons s p')
  assume "\<forall>m. v \<noteq> JMap m" "\<forall>xs. v \<noteq> JSlice xs"
  with Cons show ?thesis by (cases s; cases v) auto
qed

lemma covers_refl [simp]: "covers a a"
  by (simp add: covers_def)

lemma covers_scalar: "\<forall>m. a \<noteq> JMap m \<Longrightarrow> \<forall>xs. a \<noteq> JSlice xs \<Longrightarrow> covers r a"
  by (simp add: covers_def keysAt_scalar)

lemma covers_JMapI:
  assumes "keysJ a \<subseteq> keysJ r" and "\<And>k. covers (lookupJ r k) (lookupJ a k)"
  shows "covers (JMap r) (JMap a)"
  unfolding covers_def
proof
  fix p
  show "keysAt (JMap a) p \<subseteq> keysAt (JMap r) p"
  proof (cases p)
    case Nil
    with assms(1) show ?thesis by simp
  next
    case (Cons s p')
    show ?thesis
    proof (cases s)
      case (Key k)
      with Cons assms(2) [of k] show ?thesis by (simp add: covers_def)
    next
      case Elem
      with Cons show ?thesis by simp
    qed
  qed
qed

lemma covers_JSlice_Nil [simp]: "covers r (JSlice [])"
  unfolding covers_def
proof
  fix p show "keysAt (JSlice []) p \<subseteq> keysAt r p"
  proof (cases p)
    case Nil
    then show ?thesis by simp
  next
    case (Cons s p')
    then show ?thesis by (cases s) simp_all
  qed
qed

lemma covers_JSlice1: "covers r a \<Longrightarrow> covers (JSlice [r]) (JSlice [a])"
  unfolding covers_def
proof
  fix p assume c: "\<forall>p. keysAt a p \<subseteq> keysAt r p"
  show "keysAt (JSlice [a]) p \<subseteq> keysAt (JSlice [r]) p"
  proof (cases p)
    case Nil
    then show ?thesis by simp
  next
    case (Cons s p')
    with c show ?thesis by (cases s) simp_all
  qed
qed

lemma lookupJ_update: "lookupJ (AList.update k v al) k' = (if k' = k then v else lookupJ al k')"
  by (simp add: lookupJ_def update_conv')

lemma keys_mergeFields: "fst ` set (mergeFields b inc) = fst ` set b \<union> fst ` set inc"
proof (induction inc arbitrary: b)
  case Nil
  show ?case by simp
next
  case (Cons a inc)
  obtain k v where a: "a = (k, v)" by (cases a)
  show ?case using Cons.IH a by (simp add: dom_update)
qed

lemma lookupJ_mergeFields:
  "distinct (map fst inc) \<Longrightarrow>
   lookupJ (mergeFields b inc) k =
     (if k \<in> fst ` set inc then mergeTemplateValues (lookupJ b k) (lookupJ inc k) else lookupJ b k)"
proof (induction inc arbitrary: b)
  case Nil
  show ?case by simp
next
  case (Cons a inc)
  obtain k0 v0 where a: "a = (k0, v0)" by (cases a)
  have d: "distinct (map fst inc)" and f: "k0 \<notin> fst ` set inc" using Cons.prems a by auto
  let ?b1 = "AList.update k0 (mergeTemplateValues (lookupJ b k0) v0) b"
  have step: "mergeFields b (a # inc) = mergeFields ?b1 inc" using a by simp
  have ih: "lookupJ (mergeFields ?b1 inc) k =
     (if k \<in> fst ` set inc then mergeTemplateValues (lookupJ ?b1 k) (lookupJ inc k) else lookupJ ?b1 k)"
    by (rule Cons.IH [OF d])
  show ?case
  proof (cases "k = k0")
    case True
    then have "k \<notin> fst ` set inc" using f by simp
    then have "lookupJ (mergeFields ?b1 inc) k = lookupJ ?b1 k" using ih by simp
    also have "\<dots> = mergeTemplateValues (lookupJ b k0) v0" using True by (simp add: lookupJ_update)
    also have "\<dots> = mergeTemplateValues (lookupJ b k) (lookupJ (a # inc) k)"
      using True a by (simp add: lookupJ_def)
    finally show ?thesis using True a step by simp
  next
    case False
    have l1: "lookupJ ?b1 k = lookupJ b k" using False by (simp add: lookupJ_update)
    have l2: "lookupJ (a # inc) k = lookupJ inc k" using False a by (simp add: lookupJ_def)
    have l3: "(k \<in> fst ` set (a # inc)) = (k \<in> fst ` set inc)" using False a by auto
    show ?thesis unfolding step ih l1 l2 l3 by simp
  qed
qed


lemma skeleton_cases:
  "isSkeleton v \<Longrightarrow>
   v = JString [] \<or> v = JBool False \<or> v = JInt 0 \<or> (\<exists>m. v = JMap m) \<or> v = JSlice [] \<or>
   (\<exists>e. v = JSlice [e] \<and> isSkeleton e)"
  by (induction v rule: isSkeleton.induct) simp_all

lemma toTemplateMap_distinct: "isSkeleton i \<Longrightarrow> distinct (map fst (toTemplateMap i))"
proof (induction i rule: isSkeleton.induct)
  case (6 e)
  then show ?case by (cases e) simp_all
qed simp_all

lemma lookupJ_skeleton: "isSkeleton (JMap m) \<Longrightarrow> nilOrSkeleton (lookupJ m k)"
  using lookupJ_cases [of m k] by (auto simp: nilOrSkeleton_def list_all_iff)

lemma lookupJ_mem: "k \<in> fst ` set m \<Longrightarrow> (k, lookupJ m k) \<in> set m"
  using lookupJ_cases [of m k] map_of_eq_None_iff [of m k]
  by (auto simp: lookupJ_def split: option.splits dest: map_of_SomeD)

lemma covers_JNil [simp]: "covers r JNil"
  by (simp add: covers_scalar)

lemma merge_covers_map:
  assumes bs: "isSkeleton (JMap m)" and isk: "isSkeleton incoming"
    and ih: "\<And>k v. (k, v) \<in> set (toTemplateMap incoming) \<Longrightarrow> nilOrSkeleton (lookupJ m k) \<Longrightarrow>
        nilOrSkeleton v \<Longrightarrow>
        covers (mergeTemplateValues (lookupJ m k) v) (lookupJ m k) \<and>
        (sameShape (lookupJ m k) v \<longrightarrow> covers (mergeTemplateValues (lookupJ m k) v) v)"
  shows "covers (JMap (mergeFields m (toTemplateMap incoming))) (JMap m) \<and>
     (sameShape (JMap m) incoming \<longrightarrow> covers (JMap (mergeFields m (toTemplateMap incoming))) incoming)"
proof
  let ?inc = "toTemplateMap incoming"
  have d: "distinct (map fst ?inc)" using isk by (rule toTemplateMap_distinct)
  have ih': "covers (mergeTemplateValues (lookupJ m k) (lookupJ ?inc k)) (lookupJ m k) \<and>
        (sameShape (lookupJ m k) (lookupJ ?inc k) \<longrightarrow>
           covers (mergeTemplateValues (lookupJ m k) (lookupJ ?inc k)) (lookupJ ?inc k))"
    if k: "k \<in> fst ` set ?inc" for k
  proof -
    have mem: "(k, lookupJ ?inc k) \<in> set ?inc" using k by (rule lookupJ_mem)
    have "isSkeleton (lookupJ ?inc k)" using toTemplateMap_skeleton [OF isk mem] .
    then have "nilOrSkeleton (lookupJ ?inc k)" by (simp add: nilOrSkeleton_def)
    with ih [OF mem lookupJ_skeleton [OF bs]] show ?thesis by blast
  qed
  show "covers (JMap (mergeFields m ?inc)) (JMap m)"
  proof (rule covers_JMapI)
    show "keysJ m \<subseteq> keysJ (mergeFields m ?inc)" by (simp add: keysJ_def keys_mergeFields)
  next
    fix k
    show "covers (lookupJ (mergeFields m ?inc) k) (lookupJ m k)"
      using ih' [of k] by (simp add: lookupJ_mergeFields [OF d])
  qed
  show "sameShape (JMap m) incoming \<longrightarrow> covers (JMap (mergeFields m ?inc)) incoming"
  proof
    assume ss: "sameShape (JMap m) incoming"
    from skeleton_cases [OF isk] ss
    consider (scalar) "\<forall>m. incoming \<noteq> JMap m" "\<forall>xs. incoming \<noteq> JSlice xs"
      | (map) im where "incoming = JMap im"
      by auto
    then show "covers (JMap (mergeFields m ?inc)) incoming"
    proof cases
      case scalar
      then show ?thesis by (rule covers_scalar)
    next
      case (map im)
      have inc: "?inc = im" using map by simp
      have all: "\<And>k v. (k, v) \<in> set im \<Longrightarrow> sameShape (lookupJ m k) v"
        using ss map by (auto simp: list_all_iff)
      have "covers (JMap (mergeFields m im)) (JMap im)"
      proof (rule covers_JMapI)
        show "keysJ im \<subseteq> keysJ (mergeFields m im)" by (simp add: keysJ_def keys_mergeFields)
      next
        fix k
        show "covers (lookupJ (mergeFields m im) k) (lookupJ im k)"
        proof (cases "k \<in> fst ` set im")
          case True
          then have "sameShape (lookupJ m k) (lookupJ im k)" using all lookupJ_mem by blast
          then show ?thesis using ih' [of k] True d by (simp add: inc lookupJ_mergeFields)
        next
          case False
          then have "lookupJ im k = JNil" by (rule lookupJ_fresh)
          then show ?thesis by simp
        qed
      qed
      then show ?thesis using map by simp
    qed
  qed
qed


lemma firstOrNil_toTemplateSlice_nonnil:
  "isSkeleton i \<Longrightarrow> toTemplateSlice i \<noteq> [] \<Longrightarrow> firstOrNil (toTemplateSlice i) \<noteq> JNil"
  by (induction i rule: isSkeleton.induct) (auto simp: firstOrNil_def)

lemma merge_covers_slice:
  assumes bs: "isSkeleton (JSlice xs)" and isk: "isSkeleton incoming"
    and ih: "\<not> (xs = [] \<and> toTemplateSlice incoming = []) \<Longrightarrow>
        covers (mergeTemplateValues (firstOrNil xs) (firstOrNil (toTemplateSlice incoming))) (firstOrNil xs) \<and>
        (sameShape (firstOrNil xs) (firstOrNil (toTemplateSlice incoming)) \<longrightarrow>
           covers (mergeTemplateValues (firstOrNil xs) (firstOrNil (toTemplateSlice incoming)))
             (firstOrNil (toTemplateSlice incoming)))"
  shows "covers (mergeTemplateValues (JSlice xs) incoming) (JSlice xs) \<and>
     (sameShape (JSlice xs) incoming \<longrightarrow> covers (mergeTemplateValues (JSlice xs) incoming) incoming)"
proof -
  have inn: "incoming \<noteq> JNil" using isk by auto
  let ?fb = "firstOrNil xs" and ?fi = "firstOrNil (toTemplateSlice incoming)"
  show ?thesis
  proof (cases "xs = [] \<and> toTemplateSlice incoming = []")
    case True
    then have r: "mergeTemplateValues (JSlice xs) incoming = JSlice []"
      using inn by (simp add: merge_JSlice)
    have "incoming = JSlice []"
      using skeleton_cases [OF isk] True by auto
    then show ?thesis using r True by simp
  next
    case False
    have nn: "?fb \<noteq> JNil \<or> ?fi \<noteq> JNil"
    proof (cases xs)
      case Nil
      then have "toTemplateSlice incoming \<noteq> []" using False by simp
      then show ?thesis using firstOrNil_toTemplateSlice_nonnil [OF isk] by simp
    next
      case (Cons x xs')
      then have "isSkeleton x" using bs by (cases xs') simp_all
      then show ?thesis using Cons by (auto simp: firstOrNil_def)
    qed
    then have mn: "mergeTemplateValues ?fb ?fi \<noteq> JNil" by (rule merge_nonnil)
    have r: "mergeTemplateValues (JSlice xs) incoming = JSlice [mergeTemplateValues ?fb ?fi]"
      using inn False mn by (simp add: merge_JSlice)
    note c = ih [OF False]
    have base: "covers (JSlice [mergeTemplateValues ?fb ?fi]) (JSlice xs)"
    proof (cases xs)
      case Nil
      then show ?thesis by simp
    next
      case (Cons x xs')
      then have "xs' = []" using bs by (cases xs') simp_all
      then show ?thesis using Cons c covers_JSlice1 by (simp add: firstOrNil_def)
    qed
    have inc: "covers (JSlice [mergeTemplateValues ?fb ?fi]) incoming"
      if ss: "sameShape (JSlice xs) incoming"
    proof -
      from skeleton_cases [OF isk] ss
      consider (scalar) "\<forall>m. incoming \<noteq> JMap m" "\<forall>xs. incoming \<noteq> JSlice xs"
        | (empty) "incoming = JSlice []"
        | (one) e where "incoming = JSlice [e]"
        by auto
      then show ?thesis
      proof cases
        case scalar
        then show ?thesis by (rule covers_scalar)
      next
        case empty
        then show ?thesis by simp
      next
        case (one e)
        then have "sameShape ?fb ?fi" using ss by (simp add: firstOrNil_def)
        then have "covers (mergeTemplateValues ?fb ?fi) e" using c one by (simp add: firstOrNil_def)
        then show ?thesis using one covers_JSlice1 by simp
      qed
    qed
    show ?thesis using r base inc by simp
  qed
qed

lemma merge_covers:
  "nilOrSkeleton b \<Longrightarrow> nilOrSkeleton i \<Longrightarrow>
   covers (mergeTemplateValues b i) b \<and> (sameShape b i \<longrightarrow> covers (mergeTemplateValues b i) i)"
proof (induction b i rule: mergeTemplateValues.induct)
  case (1 base incoming)
  show ?case
  proof (cases "base = JNil")
    case True
    with 1(4) show ?thesis by (auto simp: nilOrSkeleton_def copy_skeleton)
  next
    case bnn: False
    show ?thesis
    proof (cases "incoming = JNil")
      case True
      then show ?thesis by simp
    next
      case inn: False
      from bnn 1(3) have bs: "isSkeleton base" by (simp add: nilOrSkeleton_def)
      from inn 1(4) have isk: "isSkeleton incoming" by (simp add: nilOrSkeleton_def)
      from skeleton_cases [OF bs]
      consider (scalar) "\<forall>m. base \<noteq> JMap m" "\<forall>xs. base \<noteq> JSlice xs"
        | (map) m where "base = JMap m"
        | (slice) xs where "base = JSlice xs"
        by auto
      then show ?thesis
      proof cases
        case scalar
        have r: "mergeTemplateValues base incoming = base"
          using bnn scalar by (simp add: merge_scalar)
        have "covers base incoming" if "sameShape base incoming"
        proof -
          have "\<forall>m. incoming \<noteq> JMap m" "\<forall>xs. incoming \<noteq> JSlice xs"
            using that bnn scalar by (auto split: jvalue.splits)
          then show ?thesis by (rule covers_scalar)
        qed
        then show ?thesis using r by simp
      next
        case (map m)
        have "covers (JMap (mergeFields m (toTemplateMap incoming))) (JMap m) \<and>
          (sameShape (JMap m) incoming \<longrightarrow> covers (JMap (mergeFields m (toTemplateMap incoming))) incoming)"
        proof (rule merge_covers_map)
          show "isSkeleton (JMap m)" using bs map by simp
          show "isSkeleton incoming" by (rule isk)
        next
          fix k v
          assume kv: "(k, v) \<in> set (toTemplateMap incoming)"
            and a: "nilOrSkeleton (lookupJ m k)" and b: "nilOrSkeleton v"
          show "covers (mergeTemplateValues (lookupJ m k) v) (lookupJ m k) \<and>
            (sameShape (lookupJ m k) v \<longrightarrow> covers (mergeTemplateValues (lookupJ m k) v) v)"
            by (rule 1(1) [OF bnn inn map kv refl a b])
        qed
        then show ?thesis using map inn by (simp add: merge_JMap)
      next
        case (slice xs)
        show ?thesis unfolding slice
        proof (rule merge_covers_slice)
          show "isSkeleton (JSlice xs)" using bs slice by simp
          show "isSkeleton incoming" by (rule isk)
        next
          assume ne: "\<not> (xs = [] \<and> toTemplateSlice incoming = [])"
          then have ne': "\<not> (length xs = 0 \<and> length (toTemplateSlice incoming) = 0)" by simp
          have fb: "nilOrSkeleton (firstOrNil xs)" using bs slice firstOrNil_skeleton by simp
          have fi: "nilOrSkeleton (firstOrNil (toTemplateSlice incoming))"
            using isk firstOrNil_toTemplateSlice_skeleton by simp
          show "covers (mergeTemplateValues (firstOrNil xs) (firstOrNil (toTemplateSlice incoming))) (firstOrNil xs) \<and>
            (sameShape (firstOrNil xs) (firstOrNil (toTemplateSlice incoming)) \<longrightarrow>
               covers (mergeTemplateValues (firstOrNil xs) (firstOrNil (toTemplateSlice incoming)))
                 (firstOrNil (toTemplateSlice incoming)))"
            by (rule 1(2) [OF bnn inn slice refl ne' refl refl fb fi])
        qed
      qed
    qed
  qed
qed


lemma build_JMap_skeleton_map: "\<exists>m. buildTemplateValue (JMap a) = JMap m \<and> keysJ m = keysJ a \<and> isSkeleton (JMap m)"
proof -
  obtain m where m: "buildTemplateValue (JMap a) = JMap m" using build_JMap_is_map by blast
  have "isSkeleton (buildTemplateValue (JMap a))" by (rule build_skeleton)
  then have "isSkeleton (JMap m)" by (simp only: m)
  moreover have "keysJ m = keysJ a"
    using m fold_build_fields_keys [of buildTemplateValue a "[]"] by (auto simp: keysJ_def)
  ultimately show ?thesis using m by blast
qed

text \<open>
  Claim C2, as the code has it. Let two documents \<open>A = JMap a\<close> and \<open>B = JMap b\<close> be the
  elements of an array. The sanitizer folds them into one representative element, an object
  whose key set contains the keys of \<open>A\<close> and the keys of \<open>B\<close>. At every nesting level the
  representative has the keys of the sanitized \<open>A\<close>, the element folded first. It has the
  keys of the sanitized \<open>B\<close> at every nesting level provided that, wherever \<open>B\<close> has an object
  or an array, \<open>A\<close> has a value of the same kind or no value (\<open>sameShape\<close>); where a scalar
  or a value of another kind was seen first, it wins and the later keys below it are dropped.
\<close>

theorem skeleton_keys_superset:
  "\<exists>m. buildTemplateValue (JSlice [JMap a, JMap b]) = JSlice [JMap m] \<and>
       keysJ a \<union> keysJ b \<subseteq> keysJ m \<and>
       (\<forall>p. keysAt (buildTemplateValue (JMap a)) p \<subseteq> keysAt (JMap m) p) \<and>
       (sameShape (buildTemplateValue (JMap a)) (buildTemplateValue (JMap b)) \<longrightarrow>
          (\<forall>p. keysAt (buildTemplateValue (JMap b)) p \<subseteq> keysAt (JMap m) p))"
proof -
  obtain a' where a': "buildTemplateValue (JMap a) = JMap a'" "keysJ a' = keysJ a" "isSkeleton (JMap a')"
    using build_JMap_skeleton_map by blast
  obtain b' where b': "buildTemplateValue (JMap b) = JMap b'" "keysJ b' = keysJ b" "isSkeleton (JMap b')"
    using build_JMap_skeleton_map by blast
  let ?m = "mergeFields a' b'"
  have mg: "mergeTemplateValues (JMap a') (JMap b') = JMap ?m" by (simp add: merge_JMap)
  have "buildTemplateValue (JSlice [JMap a, JMap b]) =
      JSlice [foldl mergeTemplateValues JNil (map buildTemplateValue [JMap a, JMap b])]"
    by (rule build_JSlice_Cons)
  also have "\<dots> = JSlice [mergeTemplateValues (copyTemplateValue (JMap a')) (JMap b')]"
    by (simp only: list.map foldl.simps a' b' merge_JNil_base)
  also have "\<dots> = JSlice [JMap ?m]"
    by (simp only: copy_skeleton [OF a'(3)] mg)
  finally have r: "buildTemplateValue (JSlice [JMap a, JMap b]) = JSlice [JMap ?m]" .
  have k: "keysJ a \<union> keysJ b \<subseteq> keysJ ?m"
    using a'(2) b'(2) by (simp add: keysJ_def keys_mergeFields)
  have c: "covers (JMap ?m) (JMap a') \<and> (sameShape (JMap a') (JMap b') \<longrightarrow> covers (JMap ?m) (JMap b'))"
    using merge_covers [of "JMap a'" "JMap b'"] a'(3) b'(3) mg by (simp only: nilOrSkeleton_def) simp
  show ?thesis
    using r k c unfolding a'(1) b'(1) covers_def by blast
qed

lemma build_pq: "buildTemplateValue (JSlice [JMap fields_p, JMap fields_q]) =
    JSlice [JMap [(''x'', JMap [(''p'', JInt 0), (''q'', JString [])]), (''z'', JBool False)]]"
  by code_simp

lemma sameShape_pq: "sameShape (buildTemplateValue (JMap fields_p)) (buildTemplateValue (JMap fields_q))"
  by code_simp

lemma build_q: "buildTemplateValue (JMap fields_q) = JMap [(''x'', JMap [(''q'', JString [])]), (''z'', JBool False)]"
  by code_simp

lemma build_counterexample_values:
  "buildTemplateValue (JSlice [elem_x_scalar, elem_x_object]) = JSlice [JMap [(''x'', JString [])]]"
  "buildTemplateValue elem_x_object = JMap [(''x'', JMap [(''y'', JInt 0)])]"
  by code_simp+


theorem skeleton_keys_superset_witness:
  "buildTemplateValue (JSlice [JMap fields_p, JMap fields_q]) =
     JSlice [JMap [(''x'', JMap [(''p'', JInt 0), (''q'', JString [])]), (''z'', JBool False)]] \<and>
   keysJ fields_p \<union> keysJ fields_q
     \<subseteq> keysJ [(''x'', JMap [(''p'', JInt 0), (''q'', JString [])]), (''z'', JBool False)] \<and>
   sameShape (buildTemplateValue (JMap fields_p)) (buildTemplateValue (JMap fields_q)) \<and>
   keysAt (buildTemplateValue (JMap fields_q)) [Key ''x'']
     \<subseteq> keysAt (JMap [(''x'', JMap [(''p'', JInt 0), (''q'', JString [])]), (''z'', JBool False)]) [Key ''x''] \<and>
   ''q'' \<in> keysAt (buildTemplateValue (JMap fields_q)) [Key ''x'']"
proof -
  obtain m where m: "buildTemplateValue (JSlice [JMap fields_p, JMap fields_q]) = JSlice [JMap m]"
    "keysJ fields_p \<union> keysJ fields_q \<subseteq> keysJ m"
    "sameShape (buildTemplateValue (JMap fields_p)) (buildTemplateValue (JMap fields_q)) \<longrightarrow>
       (\<forall>p. keysAt (buildTemplateValue (JMap fields_q)) p \<subseteq> keysAt (JMap m) p)"
    using skeleton_keys_superset [of fields_p fields_q] by blast
  have eq: "m = [(''x'', JMap [(''p'', JInt 0), (''q'', JString [])]), (''z'', JBool False)]"
    using m(1) by (simp only: build_pq) simp
  have "keysAt (buildTemplateValue (JMap fields_q)) [Key ''x''] \<subseteq> keysAt (JMap m) [Key ''x'']"
    using m(3) sameShape_pq by blast
  moreover have "''q'' \<in> keysAt (buildTemplateValue (JMap fields_q)) [Key ''x'']"
    unfolding build_q by (simp add: lookupJ_def keysJ_def)
  ultimately show ?thesis using m(2) build_pq sameShape_pq unfolding eq by blast
qed

text \<open>
  The claim as the specification words it has the superset at every nesting level without
  condition. In the array \<^verbatim>\<open>[{"x": "s"}, {"x": {"y": 1}}]\<close> the first element has a string
  under \<^verbatim>\<open>x\<close>; the representative is \<^verbatim>\<open>{"x": ""}\<close>, and the key \<^verbatim>\<open>y\<close> that the second
  element has below \<^verbatim>\<open>x\<close> is not in it.
\<close>

theorem skeleton_nested_keys_dropped_counterexample:
  "buildTemplateValue (JSlice [elem_x_scalar, elem_x_object]) = JSlice [JMap [(''x'', JString [])]] \<and>
   ''y'' \<in> keysAt elem_x_object [Key ''x''] \<and>
   ''y'' \<in> keysAt (buildTemplateValue elem_x_object) [Key ''x''] \<and>
   ''y'' \<notin> keysAt (JMap [(''x'', JString [])]) [Key ''x'']"
  unfolding build_counterexample_values
  by (simp add: elem_x_object_def lookupJ_def keysJ_def)


section \<open>Properties of the payload merge and of the single-document replace\<close>

declare mergeJSONDocuments.simps [simp del]

lemma mergeJSONDocuments_fold:
  "mergeJSONDocuments base updates = fold mergeStep updates (case base of None \<Rightarrow> [] | Some b \<Rightarrow> b)"
  by (subst mergeJSONDocuments.simps) (simp add: mergeStep_def)

lemma mergeStep_id: "map_of (mergeStep kv b) ''_id'' = map_of b ''_id''"
  by (cases kv) (auto simp: mergeStep_def update_conv' Let_def split: jvalue.splits)

lemma fold_mergeStep_id: "map_of (fold mergeStep updates b) ''_id'' = map_of b ''_id''"
  by (induction updates arbitrary: b) (simp_all add: mergeStep_id)

lemma mergeJSONDocuments_map_of_id:
  "map_of (mergeJSONDocuments (Some existing) update) ''_id'' = map_of existing ''_id''"
  by (simp add: mergeJSONDocuments_fold fold_mergeStep_id)

text \<open>
  Claim C5. The payload merge keeps the identity of the target side: the \<^verbatim>\<open>_id\<close> field of
  \<open>mergeJSONDocuments existing update\<close> reads as the \<^verbatim>\<open>_id\<close> field of \<open>existing\<close>, whatever
  \<open>update\<close> holds under that key, and the key is present in the result exactly when it is
  present in \<open>existing\<close>.
\<close>

theorem mergeJSONDocuments_preserves_id:
  "lookupJ (mergeJSONDocuments (Some existing) update) ''_id'' = lookupJ existing ''_id'' \<and>
   (''_id'' \<in> keysJ (mergeJSONDocuments (Some existing) update)) = (''_id'' \<in> keysJ existing)"
proof -
  have m: "map_of (mergeJSONDocuments (Some existing) update) ''_id'' = map_of existing ''_id''"
    by (simp add: mergeJSONDocuments_fold fold_mergeStep_id)
  have k: "\<And>d :: document. (''_id'' \<in> keysJ d) = (map_of d ''_id'' \<noteq> None)"
    by (simp add: keysJ_def map_of_eq_None_iff)
  show ?thesis by (simp add: lookupJ_def m k)
qed

lemma ToLower_TRUE: "ToLower ''TRUE'' = ''true''"
  by code_simp

lemma ObjectIDFromHex_111: "ObjectIDFromHex ''652f781b0b0f5f6c1b3dd111'' = Some oid_111"
  by code_simp

lemma ObjectIDFromHex_nonempty: "ObjectIDFromHex s = Some oid \<Longrightarrow> s \<noteq> []"
  by (auto simp: ObjectIDFromHex_def split: if_splits)

text \<open>
  Claim C9, as the code has it. \<open>UpdateStructureWebsite\<close> returns an error and leaves the
  server as it was whenever \<^verbatim>\<open>LOCAL_DEVELOPMENT\<close> is not \<^verbatim>\<open>true\<close> (in any letter case),
  or the id is the empty string, or the payload is the nil map, or the id does not parse
  as an ObjectID; and it returns a document only when the flag is set, the id is non-empty
  and parses, and the payload is not nil. An empty payload that is not nil is accepted.
\<close>

theorem UpdateStructureWebsite_guards:
  "(ToLower (LOCAL_DEVELOPMENT e) \<noteq> ''true'' \<or> id' = [] \<or> payload = None \<or> ObjectIDFromHex id' = None
      \<longrightarrow> (\<exists>err. UpdateStructureWebsite e tenant w id' payload = (w, Inl err))) \<and>
   (UpdateStructureWebsite e tenant w id' payload = (w', Inr doc)
      \<longrightarrow> ToLower (LOCAL_DEVELOPMENT e) = ''true'' \<and> id' \<noteq> [] \<and> payload \<noteq> None \<and>
          ObjectIDFromHex id' \<noteq> None)"
  by (auto simp: UpdateStructureWebsite_def Let_def split: option.splits if_splits)

theorem UpdateStructureWebsite_guards_witness:
  "(\<exists>err. UpdateStructureWebsite env_prod ''acme'' empty_world ''652f781b0b0f5f6c1b3dd111''
             (Some [(''slug'', JString ''home'')]) = (empty_world, Inl err)) \<and>
   (\<exists>err. UpdateStructureWebsite env_dev ''acme'' empty_world ''652f781b0b0f5f6c1b3dd111'' None
             = (empty_world, Inl err)) \<and>
   ToLower (LOCAL_DEVELOPMENT env_dev) = ''true'' \<and>
   ObjectIDFromHex ''652f781b0b0f5f6c1b3dd111'' \<noteq> None"
proof -
  have "ToLower (LOCAL_DEVELOPMENT env_prod) \<noteq> ''true''"
    by (simp add: env_prod_def env_dev_def ToLower_def)
  then have a: "\<exists>err. UpdateStructureWebsite env_prod ''acme'' empty_world ''652f781b0b0f5f6c1b3dd111''
             (Some [(''slug'', JString ''home'')]) = (empty_world, Inl err)"
    using UpdateStructureWebsite_guards
      [of env_prod "''652f781b0b0f5f6c1b3dd111''" "Some [(''slug'', JString ''home'')]" "''acme''" empty_world]
    by blast
  have b: "\<exists>err. UpdateStructureWebsite env_dev ''acme'' empty_world ''652f781b0b0f5f6c1b3dd111'' None
             = (empty_world, Inl err)"
    using UpdateStructureWebsite_guards
      [of env_dev "''652f781b0b0f5f6c1b3dd111''" None "''acme''" empty_world]
    by blast
  have "UpdateStructureWebsite env_dev ''acme'' empty_world ''652f781b0b0f5f6c1b3dd111'' (Some [])
        = (empty_world(''acme'' := (empty_world ''acme'')
              \<lparr>structure_websites := fmupd (JObjectID oid_111) [(''_id'', JObjectID oid_111)]
                  (structure_websites (empty_world ''acme''))\<rparr>),
           Inr [(''_id'', JObjectID oid_111)])"
    by (simp add: UpdateStructureWebsite_def env_dev_def ToLower_TRUE ObjectIDFromHex_111
        mergeJSONDocuments_fold Let_def empty_world_def empty_database_def)
  then have c: "ToLower (LOCAL_DEVELOPMENT env_dev) = ''true'' \<and>
      ObjectIDFromHex ''652f781b0b0f5f6c1b3dd111'' \<noteq> None"
    using UpdateStructureWebsite_guards
      [of env_dev "''652f781b0b0f5f6c1b3dd111''" "Some []" "''acme''" empty_world]
    by blast
  from a b c show ?thesis by blast
qed

text \<open>
  The claim as the specification words it also demands a failure for an empty payload.
  With the flag set and a well-formed id, the empty (non-nil) payload is accepted and the
  document is written.
\<close>

theorem UpdateStructureWebsite_empty_payload_counterexample:
  "snd (UpdateStructureWebsite env_dev ''acme'' empty_world ''652f781b0b0f5f6c1b3dd111'' (Some []))
     = Inr [(''_id'', JObjectID oid_111)] \<and>
   fmlookup (structure_websites
       (fst (UpdateStructureWebsite env_dev ''acme'' empty_world ''652f781b0b0f5f6c1b3dd111'' (Some [])) ''acme''))
     (JObjectID oid_111) = Some [(''_id'', JObjectID oid_111)]"
  by (simp add: UpdateStructureWebsite_def env_dev_def ToLower_TRUE ObjectIDFromHex_111
      mergeJSONDocuments_fold Let_def empty_world_def empty_database_def)

text \<open>
  Claim C10. With the flag set, a payload that is not nil, an id that parses to \<open>oid\<close>, no
  document stored under \<open>oid\<close> and no driver fault, \<open>UpdateStructureWebsite\<close> does not fail:
  it stores and returns the document obtained by merging the payload into the singleton map
  \<^verbatim>\<open>{_id: oid}\<close>, and changes nothing else on the server.
\<close>

theorem UpdateStructureWebsite_upserts_missing:
  assumes "ToLower (LOCAL_DEVELOPMENT e) = ''true''"
    and "ObjectIDFromHex id' = Some oid"
    and "fmlookup (structure_websites (w tenant)) (JObjectID oid) = None"
    and "\<not> fault e OpGetMongoDB"
    and "\<not> fault e (OpFindOne tenant (JObjectID oid))"
    and "\<not> fault e (OpReplaceOne tenant (JObjectID oid))"
  shows "UpdateStructureWebsite e tenant w id' (Some payload) =
           (w(tenant := (w tenant)\<lparr>structure_websites :=
                fmupd (JObjectID oid) (mergeJSONDocuments (Some [(''_id'', JObjectID oid)]) payload)
                  (structure_websites (w tenant))\<rparr>),
            Inr (mergeJSONDocuments (Some [(''_id'', JObjectID oid)]) payload))"
proof -
  have "map_of (mergeJSONDocuments (Some [(''_id'', JObjectID oid)]) payload) ''_id'' = Some (JObjectID oid)"
    by (simp add: mergeJSONDocuments_map_of_id)
  then have "AList.update ''_id'' (JObjectID oid) (mergeJSONDocuments (Some [(''_id'', JObjectID oid)]) payload)
      = mergeJSONDocuments (Some [(''_id'', JObjectID oid)]) payload"
    by (rule update_triv)
  moreover have "id' \<noteq> []" using assms(2) by (rule ObjectIDFromHex_nonempty)
  ultimately show ?thesis using assms by (simp add: UpdateStructureWebsite_def Let_def)
qed

theorem UpdateStructureWebsite_upserts_missing_witness:
  "UpdateStructureWebsite env_dev ''acme'' empty_world ''652f781b0b0f5f6c1b3dd111''
       (Some [(''slug'', JString ''home'')]) =
     (empty_world(''acme'' := (empty_world ''acme'')\<lparr>structure_websites :=
          fmupd (JObjectID oid_111)
            (mergeJSONDocuments (Some [(''_id'', JObjectID oid_111)]) [(''slug'', JString ''home'')])
            (structure_websites (empty_world ''acme''))\<rparr>),
      Inr (mergeJSONDocuments (Some [(''_id'', JObjectID oid_111)]) [(''slug'', JString ''home'')])) \<and>
   mergeJSONDocuments (Some [(''_id'', JObjectID oid_111)]) [(''slug'', JString ''home'')]
     = [(''_id'', JObjectID oid_111), (''slug'', JString ''home'')]"
proof -
  have 1: "ToLower (LOCAL_DEVELOPMENT env_dev) = ''true''" by (simp add: env_dev_def ToLower_TRUE)
  have 3: "fmlookup (structure_websites (empty_world ''acme'')) (JObjectID oid_111) = None"
    by (simp add: empty_world_def empty_database_def)
  have 4: "\<not> fault env_dev OpGetMongoDB" "\<not> fault env_dev (OpFindOne ''acme'' (JObjectID oid_111))"
    "\<not> fault env_dev (OpReplaceOne ''acme'' (JObjectID oid_111))"
    by (simp_all add: env_dev_def)
  have 5: "mergeJSONDocuments (Some [(''_id'', JObjectID oid_111)]) [(''slug'', JString ''home'')]
     = [(''_id'', JObjectID oid_111), (''slug'', JString ''home'')]"
    by (simp add: mergeJSONDocuments_fold mergeStep_def)
  show ?thesis
    using UpdateStructureWebsite_upserts_missing
      [of env_dev "''652f781b0b0f5f6c1b3dd111''" oid_111 empty_world "''acme''" "[(''slug'', JString ''home'')]"]
      1 ObjectIDFromHex_111 3 4 5
    by simp
qed

section \<open>Properties of the template fan-out\<close>

lemma sanitize_Some: "\<exists>s. sanitizeTemplateDocument (Some d) = Some s"
  by (simp add: sanitizeTemplateDocument_def split: jvalue.splits)

lemma prepareDocuments_rejects:
  "Some d \<in> set docs \<Longrightarrow> prepareTemplateDocument e n (Some d) = Inl derr \<Longrightarrow>
   (\<And>m. prepareTemplateDocument e m (Some d) = Inl derr) \<Longrightarrow>
   \<exists>idx' derr'. prepareDocuments e n idx docs sd ti = Inl (ErrDocument idx' derr')"
proof (induction e n idx docs sd ti rule: prepareDocuments.induct)
  case (1 e n idx sanitizedDocs templateIDs)
  then show ?case by simp
next
  case (2 e n idx rest sanitizedDocs templateIDs)
  then show ?case by simp
next
  case (3 e n idx rawDoc rest sanitizedDocs templateIDs)
  show ?case
  proof (cases "prepareTemplateDocument e n (Some rawDoc)")
    case (Inl a)
    then show ?thesis by simp
  next
    case (Inr b)
    obtain s i n' where b: "b = (s, i, n')" by (cases b)
    have "rawDoc \<noteq> d" using Inr 3(4) [of n] by auto
    then have "Some d \<in> set rest" using 3(2) by simp
    then show ?thesis using 3(1) [OF Inr b [symmetric] refl] 3(4) Inr b by simp
  qed
qed

text \<open>
  Claim C8. Identity resolution of a template document \<open>d\<close>, whose sanitized form is \<open>s\<close>:
  with no \<^verbatim>\<open>_id\<close> field, or with a string \<^verbatim>\<open>_id\<close> that is empty after trimming, the identity
  is the next one that \<^verbatim>\<open>NewObjectID\<close> generates; a string that is non-empty after trimming
  and parses as an ObjectID gives that ObjectID; one that does not parse makes
  \<open>prepareTemplateDocument\<close> fail with the format error, and then \<open>ApplyStructureTemplate\<close> on
  any document list that contains \<open>d\<close> returns an error and leaves the server unchanged; a
  native ObjectID is used unchanged. In each successful case the sanitized document is
  returned with the resolved identity as its \<^verbatim>\<open>_id\<close>.
\<close>

theorem prepareTemplateDocument_identity_rules:
  "\<exists>s. sanitizeTemplateDocument (Some d) = Some s \<and>
     (map_of d ''_id'' = None \<longrightarrow>
        prepareTemplateDocument e n (Some d) =
          Inr (AList.update ''_id'' (JObjectID (NewObjectID e n)) s, NewObjectID e n, Suc n)) \<and>
     (map_of d ''_id'' = Some (JString str) \<and> TrimSpace str = [] \<longrightarrow>
        prepareTemplateDocument e n (Some d) =
          Inr (AList.update ''_id'' (JObjectID (NewObjectID e n)) s, NewObjectID e n, Suc n)) \<and>
     (map_of d ''_id'' = Some (JString str) \<and> TrimSpace str \<noteq> [] \<and>
      ObjectIDFromHex (TrimSpace str) = Some oid \<longrightarrow>
        prepareTemplateDocument e n (Some d) = Inr (AList.update ''_id'' (JObjectID oid) s, oid, n)) \<and>
     (map_of d ''_id'' = Some (JString str) \<and> TrimSpace str \<noteq> [] \<and>
      ObjectIDFromHex (TrimSpace str) = None \<longrightarrow>
        prepareTemplateDocument e n (Some d) = Inl (ErrInvalidIdValue (TrimSpace str)) \<and>
        (Some d \<in> set docs \<longrightarrow>
           (\<exists>err. ApplyStructureTemplate e w templateKey docs targetField = (w, Inl err)))) \<and>
     (map_of d ''_id'' = Some (JObjectID oid) \<longrightarrow>
        prepareTemplateDocument e n (Some d) = Inr (AList.update ''_id'' (JObjectID oid) s, oid, n))"
proof -
  obtain s where s: "sanitizeTemplateDocument (Some d) = Some s" using sanitize_Some by blast
  have rej: "\<exists>err. ApplyStructureTemplate e w templateKey docs targetField = (w, Inl err)"
    if a: "map_of d ''_id'' = Some (JString str)" "TrimSpace str \<noteq> []"
      "ObjectIDFromHex (TrimSpace str) = None" and mem: "Some d \<in> set docs"
  proof -
    have p: "\<And>m. prepareTemplateDocument e m (Some d) = Inl (ErrInvalidIdValue (TrimSpace str))"
      using a by (simp add: prepareTemplateDocument_def Let_def)
    obtain idx' derr' where "prepareDocuments e 0 0 docs [] [] = Inl (ErrDocument idx' derr')"
      using prepareDocuments_rejects [OF mem p p] by blast
    then show ?thesis by (simp add: ApplyStructureTemplate_def)
  qed
  show ?thesis
    using s rej by (auto simp: prepareTemplateDocument_def assignIdentity_def Let_def)
qed


lemma TrimSpace_hex_111: "TrimSpace '' 652f781b0b0f5f6c1b3dd111 '' = ''652f781b0b0f5f6c1b3dd111''"
  by code_simp

lemma TrimSpace_xyz: "TrimSpace ''xyz'' = ''xyz''"
  by code_simp

lemma ObjectIDFromHex_xyz: "ObjectIDFromHex ''xyz'' = None"
  by code_simp

lemma sanitize_slug_home:
  "sanitizeTemplateDocument (Some [(''slug'', JString ''home'')]) = Some [(''slug'', JString [])]"
  by (simp add: sanitizeTemplateDocument_def lookupJ_def)

lemma sanitize_id_slug_home:
  "sanitizeTemplateDocument (Some [(''_id'', JString x), (''slug'', JString ''home'')])
     = Some [(''_id'', JString []), (''slug'', JString [])]"
  by (simp add: sanitizeTemplateDocument_def lookupJ_def)

theorem prepareTemplateDocument_identity_rules_witness:
  "prepareTemplateDocument env_dev 0 (Some doc_no_id) =
     Inr ([(''slug'', JString []), (''_id'', JObjectID (NewObjectID env_dev 0))], NewObjectID env_dev 0, 1) \<and>
   prepareTemplateDocument env_dev 0 (Some doc_hex_id) =
     Inr ([(''_id'', JObjectID oid_111), (''slug'', JString [])], oid_111, 0) \<and>
   prepareTemplateDocument env_dev 0 (Some doc_bad_id) = Inl (ErrInvalidIdValue ''xyz'') \<and>
   (\<exists>err. ApplyStructureTemplate env_dev empty_world ''template-1'' [Some doc_no_id, Some doc_bad_id] []
      = (empty_world, Inl err))"
proof -
  have a: "prepareTemplateDocument env_dev 0 (Some doc_no_id) =
     Inr ([(''slug'', JString []), (''_id'', JObjectID (NewObjectID env_dev 0))], NewObjectID env_dev 0, 1)"
    using prepareTemplateDocument_identity_rules [where d = doc_no_id and e = env_dev and n = 0]
    by (auto simp: doc_no_id_def sanitize_slug_home)
  have b: "prepareTemplateDocument env_dev 0 (Some doc_hex_id) =
     Inr ([(''_id'', JObjectID oid_111), (''slug'', JString [])], oid_111, 0)"
    using prepareTemplateDocument_identity_rules
      [where d = doc_hex_id and str = "'' 652f781b0b0f5f6c1b3dd111 ''" and e = env_dev and n = 0
         and oid = oid_111]
    by (auto simp: doc_hex_id_def sanitize_id_slug_home TrimSpace_hex_111 ObjectIDFromHex_111)
  have c: "prepareTemplateDocument env_dev 0 (Some doc_bad_id) = Inl (ErrInvalidIdValue ''xyz'') \<and>
    (\<exists>err. ApplyStructureTemplate env_dev empty_world ''template-1'' [Some doc_no_id, Some doc_bad_id] []
      = (empty_world, Inl err))"
    using prepareTemplateDocument_identity_rules
      [where d = doc_bad_id and str = "''xyz''" and e = env_dev and n = 0
         and docs = "[Some doc_no_id, Some doc_bad_id]" and w = empty_world
         and templateKey = "''template-1''" and targetField = "[]"]
    by (auto simp: doc_bad_id_def TrimSpace_xyz ObjectIDFromHex_xyz)
  from a b c show ?thesis by blast
qed



lemma lookupJ_update_same [simp]: "lookupJ (AList.update k v al) k = v"
  by (simp add: lookupJ_def update_conv')









lemma trimmedNames_Nil [simp]: "trimmedNames [] = []"
  by (simp add: trimmedNames_def)















lemma TrimSpace_Nil [simp]: "TrimSpace [] = []"
  by (simp add: TrimSpace_def)









































end
